theory Spec2Isabelle
  imports Complex_Main
begin

section \<open>Data model\<close>

text \<open>
  The program (\<^verbatim>\<open>main.py\<close>) collects the first \<^verbatim>\<open>TOTAL_COINS\<close> assets of a
  ranked, paginated price feed, writes them to a worksheet and afterwards refreshes the
  price column only. The embedding makes every effect explicit:
  \<^item> the upstream feed is a script of responses, one consumed by each
    \<^verbatim>\<open>requests.get\<close>; a request issued when the script is used up is a run that
    is still waiting (\<open>Starved\<close>), so the unbounded \<^verbatim>\<open>while True\<close> loops are
    recursions on the script;
  \<^item> requests, sleeps, range writes and cache saves are recorded as events;
  \<^item> Python exceptions that escape a function are values of type \<open>error\<close>.
\<close>

subsection \<open>JSON values and Python exceptions\<close>

datatype json =
    JNull
  | JBool bool
  | JNum rat
  | JStr string
  | JList "json list"
  | JDict "(string \<times> json) list"

datatype error = TypeError | KeyError | AttributeError

datatype 'a outcome = Returned 'a | Raised error | Starved

subsection \<open>Configuration constants\<close>

text \<open>
  \<^verbatim>\<open>PER_PAGE = 250\<close>, \<^verbatim>\<open>TOTAL_COINS = 2000\<close>,
  \<^verbatim>\<open>PAGES = TOTAL_COINS // PER_PAGE\<close>. The constants are a parameter of every
  function, so that statements about other universe and page sizes can be made;
  \<open>source_config\<close> is the configuration of the source. Python raises
  \<^verbatim>\<open>ZeroDivisionError\<close> at import time for \<^verbatim>\<open>PER_PAGE = 0\<close>, so only
  configurations with a positive page size are programs.
\<close>

record config =
  PER_PAGE :: nat
  TOTAL_COINS :: nat

definition PAGES :: "config \<Rightarrow> nat" where
  "PAGES cfg = TOTAL_COINS cfg div PER_PAGE cfg"

definition source_config :: config where
  "source_config = \<lparr>PER_PAGE = 250, TOTAL_COINS = 2000\<rparr>"

subsection \<open>The upstream feed and the event trace\<close>

text \<open>
  One element of the script is what one \<^verbatim>\<open>requests.get\<close> meets: a transport
  failure (\<^verbatim>\<open>RequestException\<close>: timeout, connection error), or a reply with its
  status code and its body, \<open>None\<close> when the body is not JSON
  (\<^verbatim>\<open>resp.json()\<close> raises \<^verbatim>\<open>requests.exceptions.JSONDecodeError\<close>, which, from
  version 2.27 of the library on, is both a \<^verbatim>\<open>RequestException\<close> and a
  \<^verbatim>\<open>ValueError\<close>, so both loops retry).
\<close>

datatype response = Reply nat "json option" | Transport_error

text \<open>\<^verbatim>\<open>raise_for_status\<close> raises \<^verbatim>\<open>HTTPError\<close> for the statuses 400 to 599.\<close>

definition http_error :: "nat \<Rightarrow> bool" where
  "http_error status \<longleftrightarrow> 400 \<le> status \<and> status < 600"

text \<open>A range in A1 notation: first column, first row, last column, last row.\<close>

datatype a1_range = A1_range nat nat nat nat

datatype event =
    Get_page nat
  | Get_ids string
  | Sleep nat
  | Update a1_range "json list list"
  | Save "json list"

subsection \<open>Asset records\<close>

record item =
  coin_id :: json
  coin_symbol :: string
  coin_price :: json

section \<open>Full collection: \<^verbatim>\<open>fetch_top_coins_with_price\<close>\<close>

text \<open>\<^verbatim>\<open>obj[key]\<close> with a string key: only a dictionary can be subscripted so.\<close>

fun subscript :: "json \<Rightarrow> string \<Rightarrow> error + json" where
  "subscript (JDict kvs) k = (case map_of kvs k of None \<Rightarrow> Inl KeyError | Some v \<Rightarrow> Inr v)"
| "subscript _ k = Inl TypeError"

text \<open>
  \<^verbatim>\<open>.upper()\<close> exists on strings only. The letters a to z are mapped to A to Z; the
  case mapping of characters outside ASCII is not modelled.
\<close>

definition upper_char :: "char \<Rightarrow> char" where
  "upper_char c =
     (let n = (of_char c :: nat) in if 97 \<le> n \<and> n \<le> 122 then char_of (n - 32) else c)"

fun upper :: "json \<Rightarrow> error + string" where
  "upper (JStr s) = Inr (map upper_char s)"
| "upper _ = Inl AttributeError"

text \<open>The dictionary display of lines 107 to 111, its entries evaluated in order.\<close>

definition coin_item :: "json \<Rightarrow> error + item" where
  "coin_item coin =
     (case subscript coin ''id'' of
        Inl e \<Rightarrow> Inl e
      | Inr i \<Rightarrow>
         (case subscript coin ''symbol'' of
            Inl e \<Rightarrow> Inl e
          | Inr s \<Rightarrow>
             (case upper s of
                Inl e \<Rightarrow> Inl e
              | Inr u \<Rightarrow>
                 (case subscript coin ''current_price'' of
                    Inl e \<Rightarrow> Inl e
                  | Inr p \<Rightarrow> Inr \<lparr>coin_id = i, coin_symbol = u, coin_price = p\<rparr>))))"

text \<open>\<^verbatim>\<open>for coin in data: items.append({...})\<close>\<close>

fun append_coins :: "json list \<Rightarrow> item list \<Rightarrow> error + item list" where
  "append_coins [] items = Inr items"
| "append_coins (coin # data) items =
     (case coin_item coin of
        Inl e \<Rightarrow> Inl e
      | Inr it \<Rightarrow> append_coins data (items @ [it]))"

text \<open>
  One pass through the \<^verbatim>\<open>try\<close> block of lines 83 to 103, for one response.
  A payload that is not a list, or a list shorter than \<^verbatim>\<open>PER_PAGE\<close>, raises
  \<^verbatim>\<open>ValueError\<close>, which the last handler turns into a retry; but the message of that
  \<^verbatim>\<open>ValueError\<close> is built with \<^verbatim>\<open>len(data)\<close>, and \<^verbatim>\<open>len\<close> of
  \<^verbatim>\<open>None\<close>, a number or a boolean raises \<^verbatim>\<open>TypeError\<close>, which no handler
  catches.
\<close>

datatype attempt = Accept "json list" | Retry | Fatal | Crash error

fun check_payload :: "config \<Rightarrow> json \<Rightarrow> attempt" where
  "check_payload cfg (JList xs) = (if length xs < PER_PAGE cfg then Retry else Accept xs)"
| "check_payload cfg (JDict kvs) = Retry"
| "check_payload cfg (JStr s) = Retry"
| "check_payload cfg JNull = Crash TypeError"
| "check_payload cfg (JBool b) = Crash TypeError"
| "check_payload cfg (JNum x) = Crash TypeError"

fun classify :: "config \<Rightarrow> response \<Rightarrow> attempt" where
  "classify cfg Transport_error = Retry"
| "classify cfg (Reply status body) =
     (if http_error status then (if status = 429 then Retry else Fatal)
      else (case body of None \<Rightarrow> Retry | Some data \<Rightarrow> check_payload cfg data))"

text \<open>The \<^verbatim>\<open>while True\<close> loop of one page (lines 75 to 103).\<close>

datatype page_exit = Break "json list" | Early_return | Page_raised error | Page_starved

fun fetch_page :: "config \<Rightarrow> nat \<Rightarrow> response list \<Rightarrow> page_exit \<times> response list \<times> event list" where
  "fetch_page cfg page [] = (Page_starved, [], [Get_page page])"
| "fetch_page cfg page (r # feed) =
     (case classify cfg r of
        Accept data \<Rightarrow> (Break data, feed, [Get_page page])
      | Retry \<Rightarrow>
         (case fetch_page cfg page feed of
            (ex, feed', ev) \<Rightarrow> (ex, feed', Get_page page # Sleep 60 # ev))
      | Fatal \<Rightarrow> (Early_return, feed, [Get_page page])
      | Crash e \<Rightarrow> (Page_raised e, feed, [Get_page page]))"

text \<open>
  The \<^verbatim>\<open>for page in range(1, PAGES + 1)\<close> loop. The result records which
  \<^verbatim>\<open>return\<close> was taken: \<open>All_pages\<close> is line 115 (\<^verbatim>\<open>return items[:TOTAL_COINS]\<close>),
  \<open>Fatal_abort\<close> is line 99 (\<^verbatim>\<open>return items\<close>).
\<close>

datatype fetch_exit =
    All_pages "item list"
  | Fatal_abort "item list"
  | Fetch_raised error
  | Fetch_starved

fun fetch_pages ::
  "config \<Rightarrow> nat list \<Rightarrow> item list \<Rightarrow> response list \<Rightarrow> fetch_exit \<times> response list \<times> event list" where
  "fetch_pages cfg [] items feed = (All_pages (take (TOTAL_COINS cfg) items), feed, [])"
| "fetch_pages cfg (page # pages) items feed =
     (case fetch_page cfg page feed of
        (Break data, feed', ev) \<Rightarrow>
          (case append_coins data items of
             Inl e \<Rightarrow> (Fetch_raised e, feed', ev)
           | Inr items' \<Rightarrow>
              (case fetch_pages cfg pages items' feed' of
                 (ex, feed'', ev') \<Rightarrow> (ex, feed'', ev @ Sleep 20 # ev')))
      | (Early_return, feed', ev) \<Rightarrow> (Fatal_abort items, feed', ev)
      | (Page_raised e, feed', ev) \<Rightarrow> (Fetch_raised e, feed', ev)
      | (Page_starved, feed', ev) \<Rightarrow> (Fetch_starved, feed', ev))"

definition fetch_top_coins_with_price ::
  "config \<Rightarrow> response list \<Rightarrow> fetch_exit \<times> response list \<times> event list" where
  "fetch_top_coins_with_price cfg feed = fetch_pages cfg [1 ..< PAGES cfg + 1] [] feed"

text \<open>What the caller of \<^verbatim>\<open>fetch_top_coins_with_price\<close> receives.\<close>

fun returned :: "fetch_exit \<Rightarrow> item list outcome" where
  "returned (All_pages items) = Returned items"
| "returned (Fatal_abort items) = Returned items"
| "returned (Fetch_raised e) = Raised e"
| "returned Fetch_starved = Starved"


text \<open>
  For stating what a collection returns: the payloads that the page loop accepts among
  the responses it consumes, in order.
\<close>

fun accepted_pages :: "config \<Rightarrow> response list \<Rightarrow> json list list" where
  "accepted_pages cfg [] = []"
| "accepted_pages cfg (r # feed) =
     (case classify cfg r of
        Accept data \<Rightarrow> data # accepted_pages cfg feed
      | _ \<Rightarrow> accepted_pages cfg feed)"

section \<open>Price refresh: \<^verbatim>\<open>update_prices_only\<close>\<close>

text \<open>\<^verbatim>\<open>",".join(chunk)\<close> raises \<^verbatim>\<open>TypeError\<close> unless every element is a string.\<close>

fun str_join :: "json list \<Rightarrow> error + string" where
  "str_join [] = Inr []"
| "str_join [JStr s] = Inr s"
| "str_join (JStr s # xs) =
     (case str_join xs of Inl e \<Rightarrow> Inl e | Inr t \<Rightarrow> Inr (s @ '','' @ t))"
| "str_join (_ # xs) = Inl TypeError"

text \<open>
  One pass through the \<^verbatim>\<open>try\<close> block of lines 165 to 183. A non-429 HTTP error
  sets \<^verbatim>\<open>data = []\<close> and leaves the loop; the payload of a reply is not inspected
  here.
\<close>

datatype batch_try = Got json | Again

fun classify_batch :: "response \<Rightarrow> batch_try" where
  "classify_batch Transport_error = Again"
| "classify_batch (Reply status body) =
     (if http_error status then (if status = 429 then Again else Got (JList []))
      else (case body of None \<Rightarrow> Again | Some data \<Rightarrow> Got data))"

datatype batch_exit = Batch_data json | Batch_starved

fun fetch_batch :: "string \<Rightarrow> response list \<Rightarrow> batch_exit \<times> response list \<times> event list" where
  "fetch_batch q [] = (Batch_starved, [], [Get_ids q])"
| "fetch_batch q (r # feed) =
     (case classify_batch r of
        Got data \<Rightarrow> (Batch_data data, feed, [Get_ids q])
      | Again \<Rightarrow>
         (case fetch_batch q feed of
            (ex, feed', ev) \<Rightarrow> (ex, feed', Get_ids q # Sleep 60 # ev)))"

text \<open>
  \<^verbatim>\<open>price_map = {c["id"]: c["current_price"] for c in data}\<close>. Key and value are
  evaluated before the key is hashed; lists and dictionaries are unhashable. Iterating a
  dictionary or a string yields strings, which cannot be subscripted by \<^verbatim>\<open>"id"\<close>;
  \<^verbatim>\<open>None\<close>, numbers and booleans cannot be iterated. A later record overrides an
  earlier one with the same id. (Python identifies the keys \<^verbatim>\<open>1\<close>, \<^verbatim>\<open>1.0\<close>
  and \<^verbatim>\<open>True\<close>; the map below does not, which no lookup can observe, since the
  map is only looked up at strings.)
\<close>

fun hashable :: "json \<Rightarrow> bool" where
  "hashable (JList xs) = False"
| "hashable (JDict kvs) = False"
| "hashable _ = True"

fun add_prices :: "json list \<Rightarrow> (json \<rightharpoonup> json) \<Rightarrow> error + (json \<rightharpoonup> json)" where
  "add_prices [] m = Inr m"
| "add_prices (c # cs) m =
     (case subscript c ''id'' of
        Inl e \<Rightarrow> Inl e
      | Inr k \<Rightarrow>
         (case subscript c ''current_price'' of
            Inl e \<Rightarrow> Inl e
          | Inr v \<Rightarrow> if hashable k then add_prices cs (m(k \<mapsto> v)) else Inl TypeError))"

fun price_map :: "json \<Rightarrow> error + (json \<rightharpoonup> json)" where
  "price_map (JList cs) = add_prices cs Map.empty"
| "price_map (JDict kvs) = (if kvs = [] then Inr Map.empty else Inl TypeError)"
| "price_map (JStr s) = (if s = [] then Inr Map.empty else Inl TypeError)"
| "price_map _ = Inl TypeError"

text \<open>\<^verbatim>\<open>price_map.get(coin_id, "")\<close> and the rows appended for one chunk.\<close>

definition price_get :: "(json \<rightharpoonup> json) \<Rightarrow> json \<Rightarrow> json" where
  "price_get m coin = (case m coin of None \<Rightarrow> JStr [] | Some v \<Rightarrow> v)"

definition chunk_rows :: "(json \<rightharpoonup> json) \<Rightarrow> json list \<Rightarrow> json list list" where
  "chunk_rows m chunk = map (\<lambda>coin. [price_get m coin]) chunk"

text \<open>
  \<^verbatim>\<open>frozen_ids[i:i + PER_PAGE] for i in range(0, total, PER_PAGE)\<close>, for a positive
  \<^verbatim>\<open>PER_PAGE\<close>.
\<close>

fun batches :: "nat \<Rightarrow> 'a list \<Rightarrow> 'a list list" where
  "batches n xs = (if n = 0 \<or> xs = [] then [] else take n xs # batches n (drop n xs))"

text \<open>The \<^verbatim>\<open>for\<close> loop of lines 154 to 189.\<close>

fun refresh_batches ::
  "json list list \<Rightarrow> json list list \<Rightarrow> response list \<Rightarrow>
     json list list outcome \<times> response list \<times> event list" where
  "refresh_batches [] prices feed = (Returned prices, feed, [])"
| "refresh_batches (chunk # chunks) prices feed =
     (case str_join chunk of
        Inl e \<Rightarrow> (Raised e, feed, [])
      | Inr q \<Rightarrow>
         (case fetch_batch q feed of
            (Batch_starved, feed', ev) \<Rightarrow> (Starved, feed', ev)
          | (Batch_data data, feed', ev) \<Rightarrow>
             (case price_map data of
                Inl e \<Rightarrow> (Raised e, feed', ev)
              | Inr m \<Rightarrow>
                 (case refresh_batches chunks (prices @ chunk_rows m chunk) feed' of
                    (ex, feed'', ev') \<Rightarrow> (ex, feed'', ev @ Sleep 10 # ev')))))"

text \<open>Lines 152 to 189 of \<^verbatim>\<open>update_prices_only\<close>: the list \<^verbatim>\<open>prices\<close>.\<close>

definition collect_prices ::
  "config \<Rightarrow> json list \<Rightarrow> response list \<Rightarrow> json list list outcome \<times> response list \<times> event list" where
  "collect_prices cfg frozen_ids feed = refresh_batches (batches (PER_PAGE cfg) frozen_ids) [] feed"

section \<open>The worksheet, the local cache and \<^verbatim>\<open>sync_to_sheet\<close>\<close>

text \<open>
  The worksheet is the grid of the values written to it, addressed by row and column
  from 1; \<open>JNull\<close> is a blank cell. \<open>nrows\<close> is its extent, which a write beyond it
  extends. The calls of the spreadsheet service are modelled by their effect on the grid;
  of its failures only the one the source handles, the read of cell A1, is modelled.
\<close>

record worksheet =
  nrows :: nat
  cells :: "nat \<Rightarrow> nat \<Rightarrow> json"

text \<open>\<^verbatim>\<open>add_worksheet(rows = TOTAL_COINS + 1, cols = 3)\<close>: a blank grid.\<close>

definition new_worksheet :: "config \<Rightarrow> worksheet" where
  "new_worksheet cfg = \<lparr>nrows = TOTAL_COINS cfg + 1, cells = (\<lambda>r c. JNull)\<rparr>"

text \<open>\<^verbatim>\<open>ensure_worksheet\<close>: the worksheet if it exists, else a new one.\<close>

definition ensure_worksheet :: "config \<Rightarrow> worksheet option \<Rightarrow> worksheet" where
  "ensure_worksheet cfg s = (case s of Some ws \<Rightarrow> ws | None \<Rightarrow> new_worksheet cfg)"

text \<open>
  \<^verbatim>\<open>wks.update(values, range_name)\<close>: the cell of the range at offset \<open>(i, j)\<close> from
  its top left corner receives \<open>values[i][j]\<close>; cells for which \<open>values\<close> has no
  entry, and cells outside the range, keep their content.
\<close>

fun update :: "a1_range \<Rightarrow> json list list \<Rightarrow> worksheet \<Rightarrow> worksheet" where
  "update (A1_range c1 r1 c2 r2) values ws =
     ws\<lparr>nrows := max (nrows ws) r2,
        cells := (\<lambda>r c.
          if r1 \<le> r \<and> r \<le> r2 \<and> c1 \<le> c \<and> c \<le> c2 \<and>
             r - r1 < length values \<and> c - c1 < length (values ! (r - r1))
          then values ! (r - r1) ! (c - c1)
          else cells ws r c)\<rparr>"

text \<open>
  \<^verbatim>\<open>wks.col_values(col)\<close>: the column from row 1 to its last cell that is not
  blank, a blank cell in between read as the empty string.
\<close>

fun blank :: "json \<Rightarrow> bool" where
  "blank JNull = True"
| "blank (JStr s) = (s = [])"
| "blank _ = False"

definition col_values :: "worksheet \<Rightarrow> nat \<Rightarrow> json list" where
  "col_values ws col =
     map (\<lambda>v. if blank v then JStr [] else v)
       (rev (dropWhile blank (rev (map (\<lambda>r. cells ws r col) [1 ..< nrows ws + 1]))))"

text \<open>
  The world of one run: the responses the upstream will give, the worksheet (\<open>None\<close>
  if the spreadsheet has none of that name), whether the read of A1 raises, the cache
  file \<^verbatim>\<open>frozen_coins.json\<close>, whether it can be written, and the events so far.
\<close>

datatype cache_file = Missing | Unreadable | Content json

record world =
  upstream :: "response list"
  sheet :: "worksheet option"
  a1_read_fails :: bool
  frozen_file :: cache_file
  disk_writable :: bool
  events :: "event list"

text \<open>
  \<^verbatim>\<open>load_frozen_coins\<close>: a list of at least \<^verbatim>\<open>TOTAL_COINS\<close> elements, cut to
  \<^verbatim>\<open>TOTAL_COINS\<close>; anything else, and any failure to read or parse, gives
  \<^verbatim>\<open>None\<close>.
\<close>

fun load_frozen_coins :: "config \<Rightarrow> cache_file \<Rightarrow> json list option" where
  "load_frozen_coins cfg (Content (JList data)) =
     (if TOTAL_COINS cfg \<le> length data then Some (take (TOTAL_COINS cfg) data) else None)"
| "load_frozen_coins cfg _ = None"

text \<open>\<^verbatim>\<open>save_frozen_coins\<close>: a failure to write is logged and swallowed.\<close>

definition save_frozen_coins :: "json list \<Rightarrow> world \<Rightarrow> world" where
  "save_frozen_coins ids w =
     (let w' = w\<lparr>events := events w @ [Save ids]\<rparr>
      in if disk_writable w then w'\<lparr>frozen_file := Content (JList ids)\<rparr> else w')"

text \<open>\<^verbatim>\<open>write_full_table\<close>: the header row and one row per coin, to A1:C\<open>last_row\<close>.\<close>

definition table_values :: "item list \<Rightarrow> json list list" where
  "table_values coins =
     [JStr ''ID'', JStr ''Ticker'', JStr ''Price (USD)''] #
     map (\<lambda>coin. [coin_id coin, JStr (coin_symbol coin), coin_price coin]) coins"

definition write_full_table :: "worksheet \<Rightarrow> item list \<Rightarrow> world \<Rightarrow> world" where
  "write_full_table wks coins w =
     (let values = table_values coins;
          last_row = length values;
          range_name = A1_range 1 1 3 last_row
      in w\<lparr>sheet := Some (update range_name values wks),
           events := events w @ [Update range_name values]\<rparr>)"

text \<open>\<^verbatim>\<open>update_prices_only\<close>: the prices of the loop, written to C2:C\<open>total + 1\<close>.\<close>

definition update_prices_only :: "config \<Rightarrow> worksheet \<Rightarrow> json list \<Rightarrow> world \<Rightarrow> unit outcome \<times> world" where
  "update_prices_only cfg wks frozen_ids w =
     (case collect_prices cfg frozen_ids (upstream w) of
        (Returned prices, feed', ev) \<Rightarrow>
          (let last_row = length frozen_ids + 1;
               range_name = A1_range 3 2 3 last_row
           in (Returned (),
               w\<lparr>upstream := feed',
                 sheet := Some (update range_name prices wks),
                 events := events w @ ev @ [Update range_name prices]\<rparr>))
      | (Raised e, feed', ev) \<Rightarrow> (Raised e, w\<lparr>upstream := feed', events := events w @ ev\<rparr>)
      | (Starved, feed', ev) \<Rightarrow> (Starved, w\<lparr>upstream := feed', events := events w @ ev\<rparr>))"

text \<open>
  \<^verbatim>\<open>sync_to_sheet\<close>. An exception of \<^verbatim>\<open>wks.acell("A1")\<close> sets the header to
  \<^verbatim>\<open>None\<close>, which is also what a blank cell reads as.
\<close>

definition read_header :: "worksheet \<Rightarrow> world \<Rightarrow> json" where
  "read_header wks w = (if a1_read_fails w then JNull else cells wks 1 1)"

text \<open>
  The branch of lines 207 to 215: the full collection; if it returns no record, the run
  ends; else the table is written and the identifiers are saved.
\<close>

definition first_load :: "config \<Rightarrow> worksheet \<Rightarrow> world \<Rightarrow> unit outcome \<times> world" where
  "first_load cfg wks w =
     (case fetch_top_coins_with_price cfg (upstream w) of
        (ex, feed', ev) \<Rightarrow>
          (let w' = w\<lparr>upstream := feed', events := events w @ ev\<rparr>
           in case returned ex of
                Raised e \<Rightarrow> (Raised e, w')
              | Starved \<Rightarrow> (Starved, w')
              | Returned coins \<Rightarrow>
                  if coins = [] then (Returned (), w')
                  else (Returned (),
                        save_frozen_coins (map coin_id coins) (write_full_table wks coins w'))))"

text \<open>
  Lines 218 to 221: the cached identifiers, or, when there are none, column A from row 2,
  at most \<^verbatim>\<open>TOTAL_COINS\<close> cells.
\<close>

definition known_ids :: "config \<Rightarrow> worksheet \<Rightarrow> cache_file \<Rightarrow> json list" where
  "known_ids cfg wks f =
     (case load_frozen_coins cfg f of
        None \<Rightarrow> take (TOTAL_COINS cfg) (drop 1 (col_values wks 1))
      | Some ids \<Rightarrow>
          if ids = [] then take (TOTAL_COINS cfg) (drop 1 (col_values wks 1)) else ids)"

text \<open>The branch of lines 217 to 222.\<close>

definition refresh_run :: "config \<Rightarrow> worksheet \<Rightarrow> world \<Rightarrow> unit outcome \<times> world" where
  "refresh_run cfg wks w = update_prices_only cfg wks (known_ids cfg wks (frozen_file w)) w"

definition sync_to_sheet :: "config \<Rightarrow> world \<Rightarrow> unit outcome \<times> world" where
  "sync_to_sheet cfg w =
     (let wks = ensure_worksheet cfg (sheet w);
          w1 = w\<lparr>sheet := Some wks\<rparr>;
          header = read_header wks w1
      in if header \<noteq> JStr ''ID'' then first_load cfg wks w1 else refresh_run cfg wks w1)"

section \<open>Vocabulary of the statements\<close>

text \<open>
  What the refresh is specified to emit, in the specification's words: a lookup from
  returned id to price; for each id, the looked-up price, or the empty string when the id
  is absent. \<open>listed_price\<close> is the price of the last record listing the id (a later
  record overrides an earlier one); \<open>records\<close> are the records of a payload.
\<close>

fun listed_price :: "json list \<Rightarrow> json \<Rightarrow> json option" where
  "listed_price [] k = None"
| "listed_price (c # cs) k =
     (case listed_price cs k of
        Some v \<Rightarrow> Some v
      | None \<Rightarrow>
         (if subscript c ''id'' = Inr k
          then (case subscript c ''current_price'' of Inr v \<Rightarrow> Some v | Inl e \<Rightarrow> None)
          else None))"

fun records :: "json \<Rightarrow> json list" where
  "records (JList cs) = cs"
| "records _ = []"

definition price_or_sentinel :: "json \<Rightarrow> json \<Rightarrow> json" where
  "price_or_sentinel data coin =
     (case listed_price (records data) coin of None \<Rightarrow> JStr [] | Some v \<Rightarrow> v)"

text \<open>The result set that a response which ends a batch leaves in \<^verbatim>\<open>data\<close>.\<close>

definition batch_data :: "response \<Rightarrow> json" where
  "batch_data r = (case classify_batch r of Got data \<Rightarrow> data | Again \<Rightarrow> JList [])"


text \<open>The events that a price refresh may leave: requests by id, sleeps, and writes to
  column C from row 2.\<close>

fun refresh_event :: "event \<Rightarrow> bool" where
  "refresh_event (Get_ids q) = True"
| "refresh_event (Sleep n) = True"
| "refresh_event (Update (A1_range c1 r1 c2 r2) values) = (c1 = 3 \<and> r1 = 2 \<and> c2 = 3)"
| "refresh_event _ = False"

text \<open>The events of the requests of a refresh: requests by id and sleeps.\<close>

fun batch_event :: "event \<Rightarrow> bool" where
  "batch_event (Get_ids q) = True"
| "batch_event (Sleep n) = True"
| "batch_event _ = False"


section \<open>Example data\<close>

text \<open>An upstream record and the asset record made from it.\<close>

definition btc :: json where
  "btc = JDict [(''id'', JStr ''bitcoin''), (''symbol'', JStr ''btc''), (''current_price'', JNum 50000)]"

definition btc_item :: item where
  "btc_item = \<lparr>coin_id = JStr ''bitcoin'', coin_symbol = ''BTC'', coin_price = JNum 50000\<rparr>"

text \<open>
  A worksheet that holds the header and one row, and worlds around it: one in which the
  read of A1 fails, and one without a cache file.
\<close>

definition one_row_sheet :: worksheet where
  "one_row_sheet =
     \<lparr>nrows = 2,
      cells = (\<lambda>r c. if r = 1 \<and> c = 1 then JStr ''ID''
                      else if r = 1 \<and> c = 2 then JStr ''Ticker''
                      else if r = 1 \<and> c = 3 then JStr ''Price (USD)''
                      else if r = 2 \<and> c = 1 then JStr ''ethereum''
                      else if r = 2 \<and> c = 2 then JStr ''ETH''
                      else JNull)\<rparr>"

definition unreadable_world :: world where
  "unreadable_world =
     \<lparr>upstream = [Reply 200 (Some (JList (replicate 250 btc))), Reply 500 None],
      sheet = Some one_row_sheet,
      a1_read_fails = True,
      frozen_file = Content (JList [JStr ''ethereum'']),
      disk_writable = True,
      events = []\<rparr>"

definition cacheless_world :: world where
  "cacheless_world =
     \<lparr>upstream = [Reply 200 (Some (JList [btc]))],
      sheet = Some one_row_sheet,
      a1_read_fails = False,
      frozen_file = Missing,
      disk_writable = True,
      events = []\<rparr>"


text \<open>
  A world in which the first load is cut short: the first page is answered in full, the
  second by HTTP 500; a later refresh request is answered by one record.
\<close>

definition short_load_world :: world where
  "short_load_world =
     \<lparr>upstream = [Reply 200 (Some (JList (replicate 250 btc))), Reply 500 None,
                  Reply 200 (Some (JList [btc]))],
      sheet = None,
      a1_read_fails = False,
      frozen_file = Missing,
      disk_writable = True,
      events = []\<rparr>"

section \<open>Properties of the full collection\<close>

subsection \<open>The page loop\<close>


lemma fetch_page_retries:
  "\<forall>r\<in>set rs. classify cfg r = Retry \<Longrightarrow>
   fetch_page cfg page (rs @ feed) =
     (case fetch_page cfg page feed of
        (ex, feed', ev) \<Rightarrow> (ex, feed', concat (map (\<lambda>r. [Get_page page, Sleep 60]) rs) @ ev))"
  by (induction rs) (auto split: prod.splits)

lemma accepted_pages_append:
  "accepted_pages cfg (xs @ ys) = accepted_pages cfg xs @ accepted_pages cfg ys"
  by (induction xs) (auto split: attempt.splits)

lemma check_payload_Accept: "check_payload cfg d = Accept data \<Longrightarrow> PER_PAGE cfg \<le> length data"
  by (cases d) (auto split: if_splits)

lemma classify_Accept_length: "classify cfg r = Accept data \<Longrightarrow> PER_PAGE cfg \<le> length data"
  by (cases r) (auto split: if_splits option.splits dest: check_payload_Accept)

lemma accepted_pages_length:
  "data \<in> set (accepted_pages cfg feed) \<Longrightarrow> PER_PAGE cfg \<le> length data"
  by (induction feed) (auto split: attempt.splits dest: classify_Accept_length)

lemma fetch_page_Break:
  "fetch_page cfg page feed = (Break data, feed', ev) \<Longrightarrow>
   \<exists>pre. feed = pre @ feed' \<and> accepted_pages cfg pre = [data]"
proof (induction feed arbitrary: ev)
  case Nil
  then show ?case by simp
next
  case (Cons r feed)
  show ?case
  proof (cases "classify cfg r")
    case (Accept d)
    with Cons.prems have "r # feed = [r] @ feed'" "accepted_pages cfg [r] = [data]" by auto
    then show ?thesis by blast
  next
    case Retry
    with Cons.prems obtain ev' where "fetch_page cfg page feed = (Break data, feed', ev')"
      by (auto split: prod.splits)
    from Cons.IH[OF this] obtain pre where "feed = pre @ feed'" "accepted_pages cfg pre = [data]"
      by blast
    with Retry have "r # feed = (r # pre) @ feed'" "accepted_pages cfg (r # pre) = [data]" by auto
    then show ?thesis by blast
  next
    case Fatal
    with Cons.prems show ?thesis by simp
  next
    case (Crash e)
    with Cons.prems show ?thesis by simp
  qed
qed

lemma fetch_page_Break_ext:
  "fetch_page cfg page feed = (Break data, feed', ev) \<Longrightarrow>
   fetch_page cfg page (feed @ later) = (Break data, feed' @ later, ev)"
proof (induction feed arbitrary: ev)
  case Nil
  then show ?case by simp
next
  case (Cons r feed)
  then show ?case by (cases "classify cfg r") (auto split: prod.splits)
qed

lemma fetch_page_Early:
  "fetch_page cfg page feed = (Early_return, feed', ev) \<Longrightarrow>
   \<exists>pre. feed = pre @ feed' \<and> accepted_pages cfg pre = []"
proof (induction feed arbitrary: ev)
  case Nil
  then show ?case by simp
next
  case (Cons r feed)
  show ?case
  proof (cases "classify cfg r")
    case (Accept d)
    with Cons.prems show ?thesis by simp
  next
    case Retry
    with Cons.prems obtain ev' where "fetch_page cfg page feed = (Early_return, feed', ev')"
      by (auto split: prod.splits)
    from Cons.IH[OF this] obtain pre where "feed = pre @ feed'" "accepted_pages cfg pre = []" by blast
    with Retry have "r # feed = (r # pre) @ feed'" "accepted_pages cfg (r # pre) = []" by auto
    then show ?thesis by blast
  next
    case Fatal
    with Cons.prems have "r # feed = [r] @ feed'" "accepted_pages cfg [r] = []" by auto
    then show ?thesis by blast
  next
    case (Crash e)
    with Cons.prems show ?thesis by simp
  qed
qed

lemma append_coins_append:
  "append_coins (xs @ ys) items =
     (case append_coins xs items of Inl e \<Rightarrow> Inl e | Inr its \<Rightarrow> append_coins ys its)"
  by (induction xs arbitrary: items) (auto split: sum.splits)

lemma coin_item_id: "coin_item c = Inr it \<Longrightarrow> subscript c ''id'' = Inr (coin_id it)"
  by (auto simp: coin_item_def split: sum.splits)

lemma append_coins_Inr:
  "append_coins data items = Inr its \<Longrightarrow>
   \<exists>new. its = items @ new \<and> length new = length data \<and>
     map (\<lambda>it. Inr (coin_id it)) new = map (\<lambda>c. subscript c ''id'') data"
proof (induction data arbitrary: items)
  case Nil
  then show ?case by simp
next
  case (Cons c data)
  then obtain it where it: "coin_item c = Inr it" and rest: "append_coins data (items @ [it]) = Inr its"
    by (auto split: sum.splits)
  from Cons.IH[OF rest] obtain new where "its = (items @ [it]) @ new" "length new = length data"
    "map (\<lambda>it. Inr (coin_id it)) new = map (\<lambda>c. subscript c ''id'') data" by blast
  with coin_item_id[OF it] have "its = items @ (it # new)" "length (it # new) = length (c # data)"
    "map (\<lambda>it. Inr (coin_id it)) (it # new) = map (\<lambda>c. subscript c ''id'') (c # data)" by auto
  then show ?case by blast
qed

lemma append_coins_replicate:
  "coin_item c = Inr it \<Longrightarrow> append_coins (replicate n c) items = Inr (items @ replicate n it)"
  by (induction n arbitrary: items) (auto simp: replicate_append_same)

lemma fetch_pages_All:
  "fetch_pages cfg ps items feed = (All_pages res, feed', ev) \<Longrightarrow>
   \<exists>pre its. feed = pre @ feed' \<and> length (accepted_pages cfg pre) = length ps \<and>
     append_coins (concat (accepted_pages cfg pre)) items = Inr its \<and>
     res = take (TOTAL_COINS cfg) its"
proof (induction ps arbitrary: items feed ev)
  case Nil
  then have "feed = [] @ feed'" "append_coins (concat (accepted_pages cfg [])) items = Inr items"
    "res = take (TOTAL_COINS cfg) items" "length (accepted_pages cfg []) = length ([]::nat list)"
    by auto
  then show ?case by blast
next
  case (Cons p ps)
  from Cons.prems obtain data feed1 ev1 items1 ev2 where
    page: "fetch_page cfg p feed = (Break data, feed1, ev1)" and
    coins: "append_coins data items = Inr items1" and
    rest: "fetch_pages cfg ps items1 feed1 = (All_pages res, feed', ev2)"
    by (auto split: prod.splits page_exit.splits sum.splits)
  from fetch_page_Break[OF page] obtain pre1 where
    p1: "feed = pre1 @ feed1" "accepted_pages cfg pre1 = [data]" by blast
  from Cons.IH[OF rest] obtain pre2 its where
    p2: "feed1 = pre2 @ feed'" "length (accepted_pages cfg pre2) = length ps"
      "append_coins (concat (accepted_pages cfg pre2)) items1 = Inr its"
      "res = take (TOTAL_COINS cfg) its"
    by blast
  have "feed = (pre1 @ pre2) @ feed'" using p1 p2 by simp
  moreover have "append_coins (concat (accepted_pages cfg (pre1 @ pre2))) items = Inr its"
    using p1 p2 coins by (simp add: accepted_pages_append append_coins_append)
  moreover have "length (accepted_pages cfg (pre1 @ pre2)) = length (p # ps)"
    using p1 p2 by (simp add: accepted_pages_append)
  ultimately show ?case using p2(4) by blast
qed

lemma fetch_pages_Fatal:
  "fetch_pages cfg ps items feed = (Fatal_abort res, feed', ev) \<Longrightarrow>
   \<exists>pre. feed = pre @ feed' \<and> length (accepted_pages cfg pre) < length ps \<and>
     append_coins (concat (accepted_pages cfg pre)) items = Inr res"
proof (induction ps arbitrary: items feed ev)
  case Nil
  then show ?case by simp
next
  case (Cons p ps)
  obtain ex feed1 ev1 where page: "fetch_page cfg p feed = (ex, feed1, ev1)"
    by (cases "fetch_page cfg p feed") auto
  show ?case
  proof (cases ex)
    case (Break data)
    with Cons.prems page obtain items1 ev2 where
      coins: "append_coins data items = Inr items1" and
      rest: "fetch_pages cfg ps items1 feed1 = (Fatal_abort res, feed', ev2)"
      by (auto split: prod.splits sum.splits)
    from fetch_page_Break[OF page[unfolded Break]] obtain pre1 where
      p1: "feed = pre1 @ feed1" "accepted_pages cfg pre1 = [data]" by blast
    from Cons.IH[OF rest] obtain pre2 where
      p2: "feed1 = pre2 @ feed'" "length (accepted_pages cfg pre2) < length ps"
        "append_coins (concat (accepted_pages cfg pre2)) items1 = Inr res" by blast
    have "feed = (pre1 @ pre2) @ feed'" using p1 p2 by simp
    moreover have "append_coins (concat (accepted_pages cfg (pre1 @ pre2))) items = Inr res"
      using p1 p2 coins by (simp add: accepted_pages_append append_coins_append)
    moreover have "length (accepted_pages cfg (pre1 @ pre2)) < length (p # ps)"
      using p1 p2 by (simp add: accepted_pages_append)
    ultimately show ?thesis by blast
  next
    case Early_return
    with Cons.prems page have "res = items" "feed1 = feed'" by auto
    moreover from fetch_page_Early[OF page[unfolded Early_return]] obtain pre where
      "feed = pre @ feed1" "accepted_pages cfg pre = []" by blast
    ultimately have "feed = pre @ feed'" "append_coins (concat (accepted_pages cfg pre)) items = Inr res"
      "length (accepted_pages cfg pre) < length (p # ps)"
      by auto
    then show ?thesis by blast
  next
    case (Page_raised e)
    with Cons.prems page show ?thesis by simp
  next
    case Page_starved
    with Cons.prems page show ?thesis by simp
  qed
qed

lemma fetch_page_starved_then_fatal:
  assumes "fetch_page cfg page pre = (Page_starved, rest, ev)"
    and "http_error status" and "status \<noteq> 429"
  shows "fetch_page cfg page (pre @ Reply status body # feed) = (Early_return, feed, ev)
    \<and> accepted_pages cfg pre = []"
  using assms(1)
proof (induction pre arbitrary: ev)
  case Nil
  then show ?case using assms(2,3) by auto
next
  case (Cons r pre)
  then show ?case by (cases "classify cfg r") (auto split: prod.splits)
qed

lemma fetch_pages_starved_then_fatal:
  assumes "fetch_pages cfg ps items pre = (Fetch_starved, rest, ev)"
    and "http_error status" and "status \<noteq> 429"
  shows "\<exists>acc. fetch_pages cfg ps items (pre @ Reply status body # feed) = (Fatal_abort acc, feed, ev)
    \<and> append_coins (concat (accepted_pages cfg pre)) items = Inr acc"
  using assms(1)
proof (induction ps arbitrary: items pre ev)
  case Nil
  then show ?case by simp
next
  case (Cons p ps)
  obtain ex feed1 ev1 where page: "fetch_page cfg p pre = (ex, feed1, ev1)"
    by (cases "fetch_page cfg p pre") auto
  show ?case
  proof (cases ex)
    case (Break data)
    with Cons.prems page obtain items1 ev2 where
      coins: "append_coins data items = Inr items1" and
      rest: "fetch_pages cfg ps items1 feed1 = (Fetch_starved, rest, ev2)" and
      ev: "ev = ev1 @ Sleep 20 # ev2"
      by (auto split: prod.splits sum.splits)
    from fetch_page_Break[OF page[unfolded Break]] obtain pre1 where
      p1: "pre = pre1 @ feed1" "accepted_pages cfg pre1 = [data]" by blast
    have page': "fetch_page cfg p (pre @ Reply status body # feed)
        = (Break data, feed1 @ Reply status body # feed, ev1)"
      using fetch_page_Break_ext[OF page[unfolded Break]] .
    from Cons.IH[OF rest] obtain acc where
      "fetch_pages cfg ps items1 (feed1 @ Reply status body # feed) = (Fatal_abort acc, feed, ev2)"
      "append_coins (concat (accepted_pages cfg feed1)) items1 = Inr acc" by blast
    with page' p1 coins ev show ?thesis
      by (simp add: accepted_pages_append append_coins_append)
  next
    case Early_return
    with Cons.prems page show ?thesis by simp
  next
    case (Page_raised e)
    with Cons.prems page show ?thesis by simp
  next
    case Page_starved
    with Cons.prems page have "ev1 = ev" by simp
    with fetch_page_starved_then_fatal[OF page[unfolded Page_starved] assms(2,3), of body feed]
    show ?thesis by simp
  qed
qed

lemma length_pages: "length [1 ..< PAGES cfg + 1] = PAGES cfg"
  by (simp only: length_upt add_diff_cancel_right')

lemma fetch_top_All:
  assumes "fetch_top_coins_with_price cfg feed = (All_pages res, feed', ev)"
  shows "\<exists>pre its. feed = pre @ feed' \<and> length (accepted_pages cfg pre) = PAGES cfg \<and>
     append_coins (concat (accepted_pages cfg pre)) [] = Inr its \<and>
     res = take (TOTAL_COINS cfg) its"
  using fetch_pages_All[OF assms[unfolded fetch_top_coins_with_price_def]]
  unfolding length_pages .

lemma fetch_top_Fatal:
  assumes "fetch_top_coins_with_price cfg feed = (Fatal_abort res, feed', ev)"
  shows "\<exists>pre. feed = pre @ feed' \<and> length (accepted_pages cfg pre) < PAGES cfg \<and>
     append_coins (concat (accepted_pages cfg pre)) [] = Inr res"
  using fetch_pages_Fatal[OF assms[unfolded fetch_top_coins_with_price_def]]
  unfolding length_pages .

lemma coin_item_btc: "coin_item btc = Inr btc_item"
proof -
  have "upper (JStr ''btc'') = Inr ''BTC''" by code_simp
  then show ?thesis by (simp add: coin_item_def btc_def btc_item_def)
qed

lemma not_distinct_replicate: "1 < n \<Longrightarrow> \<not> distinct (replicate n x)"
  by (cases n; cases "n - 1") auto

lemma length_concat_ge:
  "\<forall>xs\<in>set xss. n \<le> length xs \<Longrightarrow> length xss * n \<le> length (concat xss)"
  by (induction xss) auto

lemma length_concat_eq:
  "\<forall>xs\<in>set xss. length xs = n \<Longrightarrow> length (concat xss) = length xss * n"
  by (induction xss) auto

lemma accepted_pages_exact:
  "\<forall>r\<in>set feed. \<forall>data. classify cfg r = Accept data \<longrightarrow> length data = n \<Longrightarrow>
   \<forall>xs\<in>set (accepted_pages cfg feed). length xs = n"
  by (induction feed) (auto split: attempt.splits)

text \<open>A feed that answers every page at once with \<open>n\<close> copies of one record.\<close>

lemma fetch_pages_uniform:
  assumes "coin_item c = Inr it" and "PER_PAGE cfg \<le> n" and "\<not> http_error s"
  shows "fetch_pages cfg ps items (replicate (length ps) (Reply s (Some (JList (replicate n c)))) @ feed) =
     (All_pages (take (TOTAL_COINS cfg) (items @ replicate (length ps * n) it)), feed,
      concat (map (\<lambda>p. [Get_page p, Sleep 20]) ps))"
  using assms
  by (induction ps arbitrary: items) (auto simp: append_coins_replicate replicate_add)

lemma fetch_uniform_source:
  "fetch_top_coins_with_price source_config
     (replicate 8 (Reply 200 (Some (JList (replicate 250 btc)))))
   = (All_pages (replicate 2000 btc_item), [],
      concat (map (\<lambda>p. [Get_page p, Sleep 20]) [1 ..< 9]))"
proof -
  have ps: "[1 ..< PAGES source_config + 1] = [1 ..< 9]" "length [1 ..< 9 :: nat] = 8"
    by (simp_all add: PAGES_def source_config_def)
  have "fetch_pages source_config [1 ..< 9] []
          (replicate (length [1 ..< 9 :: nat]) (Reply 200 (Some (JList (replicate 250 btc)))) @ [])
        = (All_pages (take (TOTAL_COINS source_config)
             ([] @ replicate (length [1 ..< 9 :: nat] * 250) btc_item)), [],
           concat (map (\<lambda>p. [Get_page p, Sleep 20]) [1 ..< 9]))"
    by (rule fetch_pages_uniform[OF coin_item_btc]) (simp_all add: source_config_def http_error_def)
  then show ?thesis
    unfolding fetch_top_coins_with_price_def ps by (simp add: source_config_def)
qed

subsection \<open>C4: length and identifiers of a complete collection\<close>

text \<open>
  C4 as stated is refuted: the collector appends what the upstream sends and never
  compares identifiers, so when the upstream repeats a record (here every page of the
  source's configuration carries the same record, as happens when the ranking shifts
  between two page requests) the complete collection holds an identifier many times.
\<close>

theorem full_collection_duplicate_ids:
  "fst (fetch_top_coins_with_price source_config
          (replicate 8 (Reply 200 (Some (JList (replicate 250 btc))))))
     = All_pages (replicate 2000 btc_item)
   \<and> \<not> distinct (map coin_id (replicate 2000 btc_item))"
  using not_distinct_replicate[of 2000 "coin_id btc_item"]
  by (simp add: fetch_uniform_source map_replicate)

text \<open>
  C4, amended: when \<^verbatim>\<open>TOTAL_COINS\<close> is a multiple of \<^verbatim>\<open>PER_PAGE\<close> (as in the
  source, 2000 = 8 * 250), every collection that completes all pages returns exactly
  \<^verbatim>\<open>TOTAL_COINS\<close> records, and their identifiers are the \<^verbatim>\<open>"id"\<close> fields of the
  first \<^verbatim>\<open>TOTAL_COINS\<close> records of the \<^verbatim>\<open>PAGES\<close> accepted pages, in fetch order,
  without deduplication: they are pairwise distinct exactly when the upstream's are.
\<close>

theorem full_collection_length_and_ids:
  assumes "0 < PER_PAGE cfg" and "PER_PAGE cfg dvd TOTAL_COINS cfg"
    and "fetch_top_coins_with_price cfg feed = (All_pages res, feed', ev)"
  shows "length res = TOTAL_COINS cfg \<and>
    (\<exists>consumed. feed = consumed @ feed' \<and> length (accepted_pages cfg consumed) = PAGES cfg \<and>
       map (\<lambda>it. Inr (coin_id it)) res =
         take (TOTAL_COINS cfg) (map (\<lambda>c. subscript c ''id'') (concat (accepted_pages cfg consumed))))"
proof -
  from fetch_top_All[OF assms(3)] obtain pre its where
    pre: "feed = pre @ feed'" "length (accepted_pages cfg pre) = PAGES cfg"
      "append_coins (concat (accepted_pages cfg pre)) [] = Inr its"
      "res = take (TOTAL_COINS cfg) its"
    by blast
  from append_coins_Inr[OF pre(3)] have
    its: "length its = length (concat (accepted_pages cfg pre))"
      "map (\<lambda>it. Inr (coin_id it)) its = map (\<lambda>c. subscript c ''id'') (concat (accepted_pages cfg pre))"
    by auto
  have "PAGES cfg * PER_PAGE cfg \<le> length (concat (accepted_pages cfg pre))"
    using length_concat_ge[of "accepted_pages cfg pre" "PER_PAGE cfg"] accepted_pages_length pre(2)
    by auto
  moreover have "PAGES cfg * PER_PAGE cfg = TOTAL_COINS cfg"
    using assms(2) by (simp add: PAGES_def)
  ultimately have "length res = TOTAL_COINS cfg" using pre(4) its(1) by simp
  moreover have "map (\<lambda>it. Inr (coin_id it)) res =
      take (TOTAL_COINS cfg) (map (\<lambda>c. subscript c ''id'') (concat (accepted_pages cfg pre)))"
    using pre(4) its(2) by (metis take_map)
  ultimately show ?thesis using pre(1,2) by blast
qed

theorem full_collection_length_and_ids_witness:
  "0 < PER_PAGE source_config \<and> PER_PAGE source_config dvd TOTAL_COINS source_config
   \<and> fetch_top_coins_with_price source_config
        (replicate 8 (Reply 200 (Some (JList (replicate 250 btc)))))
      = (All_pages (replicate 2000 btc_item), [],
         concat (map (\<lambda>p. [Get_page p, Sleep 20]) [1 ..< 9]))
   \<and> length (replicate 2000 btc_item) = TOTAL_COINS source_config
   \<and> (\<exists>consumed. replicate 8 (Reply 200 (Some (JList (replicate 250 btc)))) = consumed @ []
        \<and> length (accepted_pages source_config consumed) = PAGES source_config
        \<and> map (\<lambda>it. Inr (coin_id it)) (replicate 2000 btc_item) =
            take (TOTAL_COINS source_config)
              (map (\<lambda>c. subscript c ''id'') (concat (accepted_pages source_config consumed))))"
proof -
  have h1: "0 < PER_PAGE source_config" by (simp add: source_config_def)
  have h2: "PER_PAGE source_config dvd TOTAL_COINS source_config" by (simp add: source_config_def)
  from full_collection_length_and_ids[OF h1 h2 fetch_uniform_source] h1 h2 fetch_uniform_source
  show ?thesis by blast
qed

subsection \<open>C6: the bound on the length of the result\<close>

text \<open>
  The loop accepts a page of \<^verbatim>\<open>PER_PAGE\<close> records or more. The return after all
  pages cuts the result to \<^verbatim>\<open>TOTAL_COINS\<close>; the return on a fatal HTTP error does
  not.
\<close>

lemma complete_collection_bounded:
  "fetch_top_coins_with_price cfg feed = (All_pages res, feed', ev) \<Longrightarrow> length res \<le> TOTAL_COINS cfg"
  by (drule fetch_top_All) auto

lemma aborted_collection_bounded:
  assumes "fetch_top_coins_with_price cfg feed = (Fatal_abort res, feed', ev)"
    and "\<forall>r\<in>set feed. \<forall>data. classify cfg r = Accept data \<longrightarrow> length data = PER_PAGE cfg"
  shows "length res < PAGES cfg * PER_PAGE cfg \<and> length res \<le> TOTAL_COINS cfg"
proof -
  from fetch_top_Fatal[OF assms(1)] obtain pre where
    pre: "feed = pre @ feed'" "length (accepted_pages cfg pre) < PAGES cfg"
      "append_coins (concat (accepted_pages cfg pre)) [] = Inr res"
    by blast
  from assms(2) pre(1) have
    "\<forall>r\<in>set pre. \<forall>data. classify cfg r = Accept data \<longrightarrow> length data = PER_PAGE cfg"
    by auto
  from length_concat_eq[OF accepted_pages_exact[OF this]] append_coins_Inr[OF pre(3)]
  have len: "length res = length (accepted_pages cfg pre) * PER_PAGE cfg" by auto
  have pos: "0 < PER_PAGE cfg" using pre(2) by (cases "PER_PAGE cfg = 0") (auto simp: PAGES_def)
  have "length res < PAGES cfg * PER_PAGE cfg" using len pre(2) pos by simp
  moreover have "PAGES cfg * PER_PAGE cfg \<le> TOTAL_COINS cfg" by (simp add: PAGES_def)
  ultimately show ?thesis by simp
qed

text \<open>
  C6, at the failing input: in the source's configuration the first page is answered by
  2001 records (accepted, since 2001 is not below 250) and the second page by HTTP 500.
  Line 99 returns the 2001 accumulated records uncut, more than \<^verbatim>\<open>TOTAL_COINS\<close>.
\<close>

theorem abort_after_oversize_page:
  "fetch_top_coins_with_price source_config
     [Reply 200 (Some (JList (replicate 2001 btc))), Reply 500 None]
   = (Fatal_abort (replicate 2001 btc_item), [], [Get_page 1, Sleep 20, Get_page 2])
   \<and> TOTAL_COINS source_config < length (replicate 2001 btc_item)"
  by (simp add: fetch_top_coins_with_price_def PAGES_def source_config_def upt_conv_Cons
      http_error_def append_coins_replicate[OF coin_item_btc])

subsection \<open>C7: a universe size that is not a multiple of the page size\<close>

text \<open>
  C7 as stated is refuted: with \<^verbatim>\<open>TOTAL_COINS = 5\<close> and \<^verbatim>\<open>PER_PAGE = 2\<close> there
  are two pages; when each is answered by three records (accepted, since three is not
  below two), the complete collection returns five records, which is
  \<^verbatim>\<open>TOTAL_COINS\<close> and not \<^verbatim>\<open>PAGES * PER_PAGE = 4\<close>.
\<close>

theorem oversize_pages_fill_total:
  "\<not> PER_PAGE \<lparr>PER_PAGE = 2, TOTAL_COINS = 5\<rparr> dvd TOTAL_COINS \<lparr>PER_PAGE = 2, TOTAL_COINS = 5\<rparr>
   \<and> fetch_top_coins_with_price \<lparr>PER_PAGE = 2, TOTAL_COINS = 5\<rparr>
        [Reply 200 (Some (JList [btc, btc, btc])), Reply 200 (Some (JList [btc, btc, btc]))]
      = (All_pages [btc_item, btc_item, btc_item, btc_item, btc_item], [],
         [Get_page 1, Sleep 20, Get_page 2, Sleep 20])
   \<and> length [btc_item, btc_item, btc_item, btc_item, btc_item]
        \<noteq> PAGES \<lparr>PER_PAGE = 2, TOTAL_COINS = 5\<rparr> * PER_PAGE \<lparr>PER_PAGE = 2, TOTAL_COINS = 5\<rparr>"
  by (simp add: fetch_top_coins_with_price_def PAGES_def upt_conv_Cons http_error_def coin_item_btc)

text \<open>
  C7, amended: when \<^verbatim>\<open>TOTAL_COINS\<close> is not a multiple of \<^verbatim>\<open>PER_PAGE\<close>, a
  collection that completes all pages returns at least \<^verbatim>\<open>PAGES * PER_PAGE\<close> and at
  most \<^verbatim>\<open>TOTAL_COINS\<close> records; when every accepted page holds exactly
  \<^verbatim>\<open>PER_PAGE\<close> records it returns exactly \<^verbatim>\<open>PAGES * PER_PAGE\<close> records, fewer
  than \<^verbatim>\<open>TOTAL_COINS\<close>: the remainder is never requested.
\<close>

theorem complete_collection_size:
  assumes "0 < PER_PAGE cfg" and "\<not> PER_PAGE cfg dvd TOTAL_COINS cfg"
    and "fetch_top_coins_with_price cfg feed = (All_pages res, feed', ev)"
  shows "PAGES cfg * PER_PAGE cfg \<le> length res \<and> length res \<le> TOTAL_COINS cfg \<and>
    ((\<forall>r\<in>set feed. \<forall>data. classify cfg r = Accept data \<longrightarrow> length data = PER_PAGE cfg) \<longrightarrow>
       length res = PAGES cfg * PER_PAGE cfg \<and> length res < TOTAL_COINS cfg)"
proof -
  from fetch_top_All[OF assms(3)] obtain pre its where
    pre: "feed = pre @ feed'" "length (accepted_pages cfg pre) = PAGES cfg"
      "append_coins (concat (accepted_pages cfg pre)) [] = Inr its"
      "res = take (TOTAL_COINS cfg) its"
    by blast
  from append_coins_Inr[OF pre(3)] have
    its: "length its = length (concat (accepted_pages cfg pre))" by auto
  have lt: "PAGES cfg * PER_PAGE cfg < TOTAL_COINS cfg"
  proof -
    have "TOTAL_COINS cfg mod PER_PAGE cfg \<noteq> 0" using assms(2) by (simp add: dvd_eq_mod_eq_0)
    moreover have "TOTAL_COINS cfg = PAGES cfg * PER_PAGE cfg + TOTAL_COINS cfg mod PER_PAGE cfg"
      by (simp add: PAGES_def)
    ultimately show ?thesis by linarith
  qed
  have ge: "PAGES cfg * PER_PAGE cfg \<le> length its"
    using length_concat_ge[of "accepted_pages cfg pre" "PER_PAGE cfg"] accepted_pages_length pre(2) its
    by auto
  have "PAGES cfg * PER_PAGE cfg \<le> length res" using ge lt pre(4) by simp
  moreover have "length res \<le> TOTAL_COINS cfg" using pre(4) by simp
  moreover have "length res = PAGES cfg * PER_PAGE cfg \<and> length res < TOTAL_COINS cfg"
    if ex: "\<forall>r\<in>set feed. \<forall>data. classify cfg r = Accept data \<longrightarrow> length data = PER_PAGE cfg"
  proof -
    from ex pre(1) have
      "\<forall>r\<in>set pre. \<forall>data. classify cfg r = Accept data \<longrightarrow> length data = PER_PAGE cfg"
      by auto
    from length_concat_eq[OF accepted_pages_exact[OF this]] pre(2) its
    have "length its = PAGES cfg * PER_PAGE cfg" by simp
    with lt pre(4) show ?thesis by simp
  qed
  ultimately show ?thesis by blast
qed

theorem complete_collection_size_witness:
  "0 < PER_PAGE \<lparr>PER_PAGE = 2, TOTAL_COINS = 5\<rparr>
   \<and> \<not> PER_PAGE \<lparr>PER_PAGE = 2, TOTAL_COINS = 5\<rparr> dvd TOTAL_COINS \<lparr>PER_PAGE = 2, TOTAL_COINS = 5\<rparr>
   \<and> fetch_top_coins_with_price \<lparr>PER_PAGE = 2, TOTAL_COINS = 5\<rparr>
        [Reply 200 (Some (JList [btc, btc])), Reply 429 None, Reply 200 (Some (JList [btc, btc]))]
      = (All_pages [btc_item, btc_item, btc_item, btc_item], [],
         [Get_page 1, Sleep 20, Get_page 2, Sleep 60, Get_page 2, Sleep 20])
   \<and> length [btc_item, btc_item, btc_item, btc_item]
       = PAGES \<lparr>PER_PAGE = 2, TOTAL_COINS = 5\<rparr> * PER_PAGE \<lparr>PER_PAGE = 2, TOTAL_COINS = 5\<rparr>
   \<and> length [btc_item, btc_item, btc_item, btc_item] < TOTAL_COINS \<lparr>PER_PAGE = 2, TOTAL_COINS = 5\<rparr>"
proof -
  have h1: "0 < PER_PAGE \<lparr>PER_PAGE = 2, TOTAL_COINS = 5\<rparr>" by simp
  have h2: "\<not> PER_PAGE \<lparr>PER_PAGE = 2, TOTAL_COINS = 5\<rparr> dvd TOTAL_COINS \<lparr>PER_PAGE = 2, TOTAL_COINS = 5\<rparr>"
    by simp
  have h3: "fetch_top_coins_with_price \<lparr>PER_PAGE = 2, TOTAL_COINS = 5\<rparr>
        [Reply 200 (Some (JList [btc, btc])), Reply 429 None, Reply 200 (Some (JList [btc, btc]))]
      = (All_pages [btc_item, btc_item, btc_item, btc_item], [],
         [Get_page 1, Sleep 20, Get_page 2, Sleep 60, Get_page 2, Sleep 20])"
    by (simp add: fetch_top_coins_with_price_def PAGES_def upt_conv_Cons http_error_def coin_item_btc)
  have h4: "\<forall>r\<in>set [Reply 200 (Some (JList [btc, btc])), Reply 429 None, Reply 200 (Some (JList [btc, btc]))].
        \<forall>data. classify \<lparr>PER_PAGE = 2, TOTAL_COINS = 5\<rparr> r = Accept data \<longrightarrow>
          length data = PER_PAGE \<lparr>PER_PAGE = 2, TOTAL_COINS = 5\<rparr>"
    by (auto simp: http_error_def)
  from complete_collection_size[OF h1 h2 h3] h1 h2 h3 h4 show ?thesis by blast
qed

subsection \<open>C8: an HTTP error other than 429\<close>

lemma fetch_pages_fatal_now:
  assumes "\<forall>r\<in>set rs. classify cfg r = Retry" and "http_error status" and "status \<noteq> 429"
  shows "fetch_pages cfg (page # pages) items (rs @ Reply status body # feed) =
     (Fatal_abort items, feed, concat (map (\<lambda>r. [Get_page page, Sleep 60]) rs) @ [Get_page page])"
  using assms by (simp add: fetch_page_retries)

text \<open>
  C8: let \<open>pre\<close> be any sequence of responses after which the collection is waiting
  for the answer to a request (on \<open>pre\<close> alone it is \<open>Fetch_starved\<close>, and \<open>ev\<close>
  are its events up to and including that request). If the answer is an HTTP error whose
  status is not 429, the collection returns at once through line 99: the events are
  exactly \<open>ev\<close>, so there is no sleep, no retry and no request for a later page; the
  responses \<open>feed\<close> that follow are left unconsumed; and the caller receives, as a
  returned value and not as an exception, the records accumulated from the pages accepted
  in \<open>pre\<close>.
\<close>

theorem non_429_http_error_ends_collection:
  assumes "fetch_top_coins_with_price cfg pre = (Fetch_starved, rest, ev)"
    and "http_error status" and "status \<noteq> 429"
  shows "\<exists>acc. fetch_top_coins_with_price cfg (pre @ Reply status body # feed)
                 = (Fatal_abort acc, feed, ev)
          \<and> returned (Fatal_abort acc) = Returned acc
          \<and> append_coins (concat (accepted_pages cfg pre)) [] = Inr acc"
  using fetch_pages_starved_then_fatal[OF assms[unfolded fetch_top_coins_with_price_def], of body feed]
  by (auto simp: fetch_top_coins_with_price_def)

theorem non_429_http_error_ends_collection_witness:
  "fetch_top_coins_with_price source_config
     ([Reply 200 (Some (JList (replicate 250 btc))), Reply 429 None] @ Reply 500 None # [Reply 200 None])
   = (Fatal_abort (replicate 250 btc_item), [Reply 200 None],
      [Get_page 1, Sleep 20, Get_page 2, Sleep 60, Get_page 2])"
proof -
  have pre: "fetch_top_coins_with_price source_config
      [Reply 200 (Some (JList (replicate 250 btc))), Reply 429 None]
    = (Fetch_starved, [], [Get_page 1, Sleep 20, Get_page 2, Sleep 60, Get_page 2])"
    by (simp add: fetch_top_coins_with_price_def PAGES_def source_config_def upt_conv_Cons
        http_error_def append_coins_replicate[OF coin_item_btc])
  have acc: "append_coins (concat (accepted_pages source_config
      [Reply 200 (Some (JList (replicate 250 btc))), Reply 429 None])) [] = Inr (replicate 250 btc_item)"
    by (simp add: source_config_def http_error_def append_coins_replicate[OF coin_item_btc])
  from non_429_http_error_ends_collection[OF pre, of 500 None "[Reply 200 None]"] acc
  show ?thesis by (auto simp: http_error_def)
qed

subsection \<open>C9: short and malformed pages\<close>

text \<open>
  A list shorter than \<^verbatim>\<open>PER_PAGE\<close>, a dictionary, a string and a body that is not
  JSON are retried after 60 seconds, with the same page number and nothing appended; every
  accepted page has at least \<^verbatim>\<open>PER_PAGE\<close> records (\<open>accepted_pages_length\<close>).
\<close>

lemma short_page_retried:
  "\<not> http_error status \<Longrightarrow> length xs < PER_PAGE cfg \<Longrightarrow>
   fetch_pages cfg (page # pages) items (Reply status (Some (JList xs)) # feed) =
     (case fetch_pages cfg (page # pages) items feed of
        (ex, feed', ev) \<Rightarrow> (ex, feed', Get_page page # Sleep 60 # ev))"
  by (auto split: prod.splits page_exit.splits sum.splits)

lemma short_pages_never_end:
  "\<forall>r\<in>set rs. \<exists>status xs. r = Reply status (Some (JList xs)) \<and> \<not> http_error status \<and>
      length xs < PER_PAGE cfg \<Longrightarrow>
   fetch_pages cfg (page # pages) items rs =
     (Fetch_starved, [], concat (map (\<lambda>r. [Get_page page, Sleep 60]) rs) @ [Get_page page])"
proof -
  assume a: "\<forall>r\<in>set rs. \<exists>status xs. r = Reply status (Some (JList xs)) \<and> \<not> http_error status \<and>
      length xs < PER_PAGE cfg"
  then have "\<forall>r\<in>set rs. classify cfg r = Retry" by auto
  from fetch_page_retries[OF this, of page "[]"] show ?thesis by simp
qed

text \<open>
  C9, at the failing input: a payload that is not a list and has no length (JSON
  \<^verbatim>\<open>null\<close>, a number, a boolean) is not retried. The check
  \<^verbatim>\<open>not isinstance(data, list)\<close> sends it to the \<^verbatim>\<open>raise ValueError\<close> of line 89,
  whose message evaluates \<^verbatim>\<open>len(data)\<close>; that raises \<^verbatim>\<open>TypeError\<close>, which the
  handlers of lines 91 and 100 do not catch, so the collection ends with an exception after
  one request.
\<close>

theorem unsized_payload_escapes:
  "fetch_top_coins_with_price source_config (Reply 200 (Some JNull) # feed) =
     (Fetch_raised TypeError, feed, [Get_page 1])"
  by (simp add: fetch_top_coins_with_price_def PAGES_def source_config_def upt_conv_Cons http_error_def)

section \<open>Properties of the price refresh\<close>

text \<open>The recursion of \<open>batches\<close> is unfolded by hand.\<close>

declare batches.simps [simp del]




lemma str_join_strings: "\<forall>i\<in>set chunk. \<exists>s. i = JStr s \<Longrightarrow> \<exists>q. str_join chunk = Inr q"
proof (induction chunk rule: str_join.induct)
qed auto

lemma str_join_Inr: "str_join chunk = Inr q \<Longrightarrow> \<forall>i\<in>set chunk. \<exists>s. i = JStr s"
proof (induction chunk arbitrary: q rule: str_join.induct)
qed (auto split: sum.splits)

lemma concat_batches: "0 < n \<Longrightarrow> concat (batches n xs) = xs"
proof (induction n xs rule: batches.induct)
  case (1 n xs)
  then show ?case by (subst batches.simps) auto
qed

lemma refresh_batches_length:
  "refresh_batches chunks prices feed = (Returned out, feed', ev) \<Longrightarrow>
   length out = length prices + length (concat chunks)"
proof (induction chunks arbitrary: prices feed ev)
  case Nil
  then show ?case by simp
next
  case (Cons chunk chunks)
  then obtain q data feed1 ev1 m ev2 where
    "refresh_batches chunks (prices @ chunk_rows m chunk) feed1 = (Returned out, feed', ev2)"
    by (auto split: sum.splits prod.splits batch_exit.splits)
  from Cons.IH[OF this] show ?case by (simp add: chunk_rows_def)
qed

lemma collect_prices_length:
  "0 < PER_PAGE cfg \<Longrightarrow> collect_prices cfg ids feed = (Returned prices, feed', ev) \<Longrightarrow>
   length prices = length ids"
  unfolding collect_prices_def by (drule refresh_batches_length) (simp add: concat_batches)






text \<open>
  Whatever the feed, a refresh that returns has one row per identifier; and a list of
  records that are dictionaries with a string \<^verbatim>\<open>"id"\<close> and a \<^verbatim>\<open>"current_price"\<close>
  is a payload the comprehension of line 185 accepts.
\<close>

lemma add_prices_well_formed:
  "\<forall>c\<in>set cs. \<exists>kvs i p. c = JDict kvs \<and> map_of kvs ''id'' = Some (JStr i) \<and>
      map_of kvs ''current_price'' = Some p \<Longrightarrow>
   \<exists>m'. add_prices cs m = Inr m'"
  by (induction cs arbitrary: m) auto

lemma price_map_well_formed:
  "\<forall>c\<in>set cs. \<exists>kvs i p. c = JDict kvs \<and> map_of kvs ''id'' = Some (JStr i) \<and>
      map_of kvs ''current_price'' = Some p \<Longrightarrow>
   \<exists>m. price_map (JList cs) = Inr m"
  by (simp add: add_prices_well_formed)

lemma degraded_batch_is_blank:
  "http_error status \<Longrightarrow> status \<noteq> 429 \<Longrightarrow>
   classify_batch (Reply status body) = Got (JList []) \<and>
   price_or_sentinel (batch_data (Reply status body)) coin = JStr []"
  by (simp add: batch_data_def price_or_sentinel_def)

subsection \<open>C1: the refresh is aligned with its input\<close>




section \<open>Properties of the synchronisation\<close>

subsection \<open>Events and frames of the two modes\<close>




lemma fetch_batch_events:
  "fetch_batch q feed = (ex, feed', ev) \<Longrightarrow> \<forall>e\<in>set ev. batch_event e"
proof (induction feed arbitrary: ev)
  case Nil
  then show ?case by auto
next
  case (Cons r feed)
  then show ?case by (cases "classify_batch r") (auto split: prod.splits)
qed

lemma refresh_batches_events:
  "refresh_batches chunks prices feed = (ex, feed', ev) \<Longrightarrow> \<forall>e\<in>set ev. batch_event e"
proof (induction chunks arbitrary: prices feed ev ex feed')
  case Nil
  then show ?case by auto
next
  case (Cons chunk chunks)
  show ?case
  proof (cases "str_join chunk")
    case (Inl e)
    with Cons.prems show ?thesis by auto
  next
    case (Inr q)
    obtain ex1 feed1 ev1 where page: "fetch_batch q feed = (ex1, feed1, ev1)"
      by (cases "fetch_batch q feed") auto
    note ev1 = fetch_batch_events[OF page]
    show ?thesis
    proof (cases ex1)
      case (Batch_data data)
      show ?thesis
      proof (cases "price_map data")
        case (Inl e)
        with Cons.prems Inr page Batch_data ev1 show ?thesis by auto
      next
        case m: (Inr m)
        obtain ex2 feed2 ev2 where
          rest: "refresh_batches chunks (prices @ chunk_rows m chunk) feed1 = (ex2, feed2, ev2)"
          by (cases "refresh_batches chunks (prices @ chunk_rows m chunk) feed1") auto
        from Cons.IH[OF rest] Cons.prems Inr page Batch_data m rest ev1 show ?thesis by auto
      qed
    next
      case Batch_starved
      with Cons.prems Inr page ev1 show ?thesis by auto
    qed
  qed
qed

lemma collect_prices_events:
  "collect_prices cfg ids feed = (ex, feed', ev) \<Longrightarrow> \<forall>e\<in>set ev. batch_event e"
  unfolding collect_prices_def by (rule refresh_batches_events)

lemma batch_event_refresh: "batch_event e \<Longrightarrow> refresh_event e"
  by (cases e) auto

lemma refresh_batches_rows:
  "refresh_batches chunks prices feed = (Returned out, feed', ev) \<Longrightarrow>
   \<forall>row\<in>set prices. length row = 1 \<Longrightarrow> \<forall>row\<in>set out. length row = 1"
proof (induction chunks arbitrary: prices feed ev)
  case Nil
  then show ?case by auto
next
  case (Cons chunk chunks)
  from Cons.prems(1) obtain m feed1 ev2 where
    rest: "refresh_batches chunks (prices @ chunk_rows m chunk) feed1 = (Returned out, feed', ev2)"
    by (auto split: sum.splits prod.splits batch_exit.splits)
  have "\<forall>row\<in>set (prices @ chunk_rows m chunk). length row = 1"
    using Cons.prems(2) by (auto simp: chunk_rows_def)
  from Cons.IH[OF rest this] show ?case .
qed

lemma collect_prices_rows:
  "collect_prices cfg ids feed = (Returned prices, feed', ev) \<Longrightarrow> \<forall>row\<in>set prices. length row = 1"
  unfolding collect_prices_def by (drule refresh_batches_rows) auto

lemma cells_update_price_column:
  "cells (update (A1_range 3 2 3 k) values ws) r c =
     (if c = 3 \<and> 2 \<le> r \<and> r \<le> k \<and> r - 2 < length values \<and> 0 < length (values ! (r - 2))
      then values ! (r - 2) ! 0 else cells ws r c)"
  by auto

lemma length_known_ids: "length (known_ids cfg ws f) \<le> TOTAL_COINS cfg"
proof (cases f)
  case (Content j)
  then show ?thesis by (cases j) (auto simp: known_ids_def)
qed (auto simp: known_ids_def)

lemma length_known_ids_cached:
  "load_frozen_coins cfg f = Some ids \<Longrightarrow> length (known_ids cfg ws f) = TOTAL_COINS cfg"
proof (cases f)
  case (Content j)
  assume "load_frozen_coins cfg f = Some ids"
  with Content show ?thesis by (cases j) (auto simp: known_ids_def split: if_splits)
qed auto

lemma sync_initialized:
  assumes "sheet w = Some ws" and "cells ws 1 1 = JStr ''ID''" and "\<not> a1_read_fails w"
  shows "sync_to_sheet cfg w = update_prices_only cfg ws (known_ids cfg ws (frozen_file w)) w"
proof -
  have same: "w\<lparr>sheet := Some ws\<rparr> = w" using assms(1) by simp
  show ?thesis
    using assms by (simp add: sync_to_sheet_def ensure_worksheet_def read_header_def refresh_run_def same)
qed

lemma initialized_sync_frame:
  assumes "sheet w = Some ws" and "cells ws 1 1 = JStr ''ID''" and "\<not> a1_read_fails w"
    and "sync_to_sheet cfg w = (out, w')"
  shows "(\<exists>ev. events w' = events w @ ev \<and> (\<forall>e\<in>set ev. refresh_event e))
    \<and> frozen_file w' = frozen_file w \<and> a1_read_fails w' = a1_read_fails w
    \<and> (\<exists>ws'. sheet w' = Some ws' \<and> (\<forall>r c. c \<noteq> 3 \<or> r < 2 \<longrightarrow> cells ws' r c = cells ws r c))"
proof -
  let ?ids = "known_ids cfg ws (frozen_file w)"
  obtain res feed' ev where run: "collect_prices cfg ?ids (upstream w) = (res, feed', ev)"
    by (cases "collect_prices cfg ?ids (upstream w)") auto
  from collect_prices_events[OF run] have ev: "\<forall>e\<in>set ev. refresh_event e"
    by (auto intro: batch_event_refresh)
  from assms(4) have upd: "update_prices_only cfg ws ?ids w = (out, w')"
    by (simp add: sync_initialized[OF assms(1-3)])
  show ?thesis
  proof (cases res)
    case (Returned prices)
    let ?rng = "A1_range 3 2 3 (length ?ids + 1)"
    from upd run Returned have w': "w' = w\<lparr>upstream := feed', sheet := Some (update ?rng prices ws),
        events := events w @ ev @ [Update ?rng prices]\<rparr>"
      by (simp add: update_prices_only_def Let_def)
    have 1: "\<exists>ev'. events w' = events w @ ev' \<and> (\<forall>e\<in>set ev'. refresh_event e)"
      using ev by (intro exI[of _ "ev @ [Update ?rng prices]"]) (simp add: w')
    have 2: "frozen_file w' = frozen_file w" "a1_read_fails w' = a1_read_fails w"
      by (simp_all add: w')
    have "\<forall>r c. c \<noteq> 3 \<or> r < 2 \<longrightarrow> cells (update ?rng prices ws) r c = cells ws r c"
      by (simp add: cells_update_price_column)
    then have 3: "\<exists>ws'. sheet w' = Some ws' \<and> (\<forall>r c. c \<noteq> 3 \<or> r < 2 \<longrightarrow> cells ws' r c = cells ws r c)"
      by (intro exI[of _ "update ?rng prices ws"]) (simp add: w')
    from 1 2 3 show ?thesis by (intro conjI)
  next
    case (Raised e)
    with upd run have w': "w' = w\<lparr>upstream := feed', events := events w @ ev\<rparr>"
      by (simp add: update_prices_only_def)
    have 1: "\<exists>ev'. events w' = events w @ ev' \<and> (\<forall>e\<in>set ev'. refresh_event e)"
      using ev by (intro exI[of _ ev]) (simp add: w')
    have 2: "frozen_file w' = frozen_file w" "a1_read_fails w' = a1_read_fails w"
      by (simp_all add: w')
    have 3: "\<exists>ws'. sheet w' = Some ws' \<and> (\<forall>r c. c \<noteq> 3 \<or> r < 2 \<longrightarrow> cells ws' r c = cells ws r c)"
      by (intro exI[of _ ws]) (simp add: w' assms(1))
    from 1 2 3 show ?thesis by (intro conjI)
  next
    case Starved
    with upd run have w': "w' = w\<lparr>upstream := feed', events := events w @ ev\<rparr>"
      by (simp add: update_prices_only_def)
    have 1: "\<exists>ev'. events w' = events w @ ev' \<and> (\<forall>e\<in>set ev'. refresh_event e)"
      using ev by (intro exI[of _ ev]) (simp add: w')
    have 2: "frozen_file w' = frozen_file w" "a1_read_fails w' = a1_read_fails w"
      by (simp_all add: w')
    have 3: "\<exists>ws'. sheet w' = Some ws' \<and> (\<forall>r c. c \<noteq> 3 \<or> r < 2 \<longrightarrow> cells ws' r c = cells ws r c)"
      by (intro exI[of _ ws]) (simp add: w' assms(1))
    from 1 2 3 show ?thesis by (intro conjI)
  qed
qed

text \<open>From here on a range write is reasoned about through the cells it leaves.\<close>

lemma cells_update:
  "cells (update (A1_range c1 r1 c2 r2) values ws) r c =
     (if r1 \<le> r \<and> r \<le> r2 \<and> c1 \<le> c \<and> c \<le> c2 \<and>
         r - r1 < length values \<and> c - c1 < length (values ! (r - r1))
      then values ! (r - r1) ! (c - c1) else cells ws r c)"
  by (simp add: update.simps)

declare update.simps [simp del]

lemma length_table_values: "length (table_values coins) = length coins + 1"
  by (simp add: table_values_def)

lemma sync_uninitialized:
  assumes "read_header (ensure_worksheet cfg (sheet w)) w \<noteq> JStr ''ID''"
  shows "sync_to_sheet cfg w =
     first_load cfg (ensure_worksheet cfg (sheet w)) (w\<lparr>sheet := Some (ensure_worksheet cfg (sheet w))\<rparr>)"
  using assms by (simp add: sync_to_sheet_def read_header_def Let_def)

lemma unreadable_header_first_load:
  "a1_read_fails w \<Longrightarrow> sync_to_sheet cfg w =
     first_load cfg (ensure_worksheet cfg (sheet w)) (w\<lparr>sheet := Some (ensure_worksheet cfg (sheet w))\<rparr>)"
  by (rule sync_uninitialized) (simp add: read_header_def)


lemma first_load_coins:
  assumes "fetch_top_coins_with_price cfg (upstream w) = (ex, feed', ev)"
    and "returned ex = Returned coins" and "coins \<noteq> []"
  shows "first_load cfg wks w =
     (Returned (),
      w\<lparr>upstream := feed',
        sheet := Some (update (A1_range 1 1 3 (length coins + 1)) (table_values coins) wks),
        frozen_file := (if disk_writable w then Content (JList (map coin_id coins)) else frozen_file w),
        events := events w @ ev @
          [Update (A1_range 1 1 3 (length coins + 1)) (table_values coins), Save (map coin_id coins)]\<rparr>)"
  using assms
  by (simp add: first_load_def write_full_table_def save_frozen_coins_def Let_def length_table_values)

lemma col_values_one_row: "col_values one_row_sheet (Suc 0) = [JStr ''ID'', JStr ''ethereum'']"
  by (simp add: col_values_def one_row_sheet_def upt_conv_Cons)

lemma known_ids_cacheless:
  "known_ids source_config one_row_sheet Missing = [JStr ''ethereum'']"
  by (simp add: known_ids_def col_values_one_row source_config_def)

lemma sync_cacheless:
  "sync_to_sheet source_config cacheless_world =
     (Returned (),
      cacheless_world\<lparr>upstream := [],
        sheet := Some (update (A1_range 3 2 3 2) [[JStr []]] one_row_sheet),
        events := [Get_ids ''ethereum'', Sleep 10, Update (A1_range 3 2 3 2) [[JStr []]]]\<rparr>)"
proof -
  have init: "sheet cacheless_world = Some one_row_sheet" "cells one_row_sheet 1 1 = JStr ''ID''"
    "\<not> a1_read_fails cacheless_world"
    by (simp_all add: cacheless_world_def one_row_sheet_def)
  have b: "batches 250 [JStr ''ethereum''] = [[JStr ''ethereum'']]"
    by (simp add: batches.simps)
  have run: "collect_prices source_config [JStr ''ethereum''] [Reply 200 (Some (JList [btc]))] =
      (Returned [[JStr []]], [], [Get_ids ''ethereum'', Sleep 10])"
    by (simp add: collect_prices_def source_config_def b http_error_def btc_def chunk_rows_def
        price_get_def)
  show ?thesis
    unfolding sync_initialized[OF init]
    by (simp add: update_prices_only_def cacheless_world_def known_ids_cacheless run
        numeral_2_eq_2[symmetric] Let_def)
qed

lemma fetch_one_page_then_500:
  "fetch_top_coins_with_price source_config
     [Reply 200 (Some (JList (replicate 250 btc))), Reply 500 None]
   = (Fatal_abort (replicate 250 btc_item), [], [Get_page 1, Sleep 20, Get_page 2])"
  by (simp add: fetch_top_coins_with_price_def PAGES_def source_config_def upt_conv_Cons
      http_error_def append_coins_replicate[OF coin_item_btc])

subsection \<open>C2: an initialized store is only refreshed\<close>

text \<open>
  C2 as stated is refuted: the store is initialized (A1 holds \<^verbatim>\<open>"ID"\<close>, row 2 holds
  an identifier), but the read of A1 raises. The handler of lines 203 and 204 sets the
  header to \<^verbatim>\<open>None\<close>, the comparison of line 206 takes the first branch, and the run
  collects the universe anew and writes the whole table A1:C251 and the cache: the
  identifier of row 2 is replaced.
\<close>

theorem unreadable_marker_rewrites_table:
  "sheet unreadable_world = Some one_row_sheet
   \<and> cells one_row_sheet 1 1 = JStr ''ID''
   \<and> cells one_row_sheet 2 1 = JStr ''ethereum''
   \<and> sync_to_sheet source_config unreadable_world =
       (Returned (),
        unreadable_world\<lparr>upstream := [],
          sheet := Some (update (A1_range 1 1 3 251) (table_values (replicate 250 btc_item)) one_row_sheet),
          frozen_file := Content (JList (replicate 250 (JStr ''bitcoin''))),
          events := [Get_page 1, Sleep 20, Get_page 2,
            Update (A1_range 1 1 3 251) (table_values (replicate 250 btc_item)),
            Save (replicate 250 (JStr ''bitcoin''))]\<rparr>)
   \<and> cells (update (A1_range 1 1 3 251) (table_values (replicate 250 btc_item)) one_row_sheet) 2 1
       = JStr ''bitcoin''"
proof -
  have up: "fetch_top_coins_with_price source_config
      (upstream (unreadable_world\<lparr>sheet := Some (ensure_worksheet source_config (sheet unreadable_world))\<rparr>))
    = (Fatal_abort (replicate 250 btc_item), [], [Get_page 1, Sleep 20, Get_page 2])"
    using fetch_one_page_then_500 by (simp add: unreadable_world_def)
  have fails: "a1_read_fails unreadable_world" by (simp add: unreadable_world_def)
  have ne: "replicate 250 btc_item \<noteq> []" by simp
  have run: "sync_to_sheet source_config unreadable_world =
       (Returned (),
        unreadable_world\<lparr>upstream := [],
          sheet := Some (update (A1_range 1 1 3 251) (table_values (replicate 250 btc_item)) one_row_sheet),
          frozen_file := Content (JList (replicate 250 (JStr ''bitcoin''))),
          events := [Get_page 1, Sleep 20, Get_page 2,
            Update (A1_range 1 1 3 251) (table_values (replicate 250 btc_item)),
            Save (replicate 250 (JStr ''bitcoin''))]\<rparr>)"
    unfolding unreadable_header_first_load[OF fails]
      first_load_coins[OF up returned.simps(2) ne]
    by (simp add: unreadable_world_def ensure_worksheet_def btc_item_def)
  have cell: "cells (update (A1_range 1 1 3 251) (table_values (replicate 250 btc_item)) one_row_sheet) 2 1
       = JStr ''bitcoin''"
    by (simp add: cells_update table_values_def btc_item_def)
  show ?thesis
    using run cell by (simp add: unreadable_world_def one_row_sheet_def)
qed

text \<open>
  C2, amended: when the store is initialized and the read of A1 succeeds (it returns
  \<^verbatim>\<open>"ID"\<close>), a run of the sync, however it ends, requests no ranked page, performs
  no full-table write and no cache save: its events are requests by id, sleeps and at
  most a write to column C from row 2. The cache file and every cell outside column C,
  so columns A and B and the marker, are as before; hence the same holds for a second run
  on the resulting world (whose read of A1 succeeds likewise), and its ID and Ticker
  columns are still those of the first world.
\<close>

theorem initialized_sync_only_refreshes:
  assumes "sheet w = Some ws" and "cells ws 1 1 = JStr ''ID''" and "\<not> a1_read_fails w"
    and "sync_to_sheet cfg w = (out, w')"
  shows "(\<exists>ev. events w' = events w @ ev \<and> (\<forall>e\<in>set ev. refresh_event e))
    \<and> frozen_file w' = frozen_file w
    \<and> (\<exists>ws'. sheet w' = Some ws' \<and> (\<forall>r c. c \<noteq> 3 \<longrightarrow> cells ws' r c = cells ws r c))
    \<and> (\<forall>out2 w2. sync_to_sheet cfg w' = (out2, w2) \<longrightarrow>
          (\<exists>ev2. events w2 = events w' @ ev2 \<and> (\<forall>e\<in>set ev2. refresh_event e))
          \<and> frozen_file w2 = frozen_file w
          \<and> (\<exists>ws2. sheet w2 = Some ws2 \<and> (\<forall>r c. c \<noteq> 3 \<longrightarrow> cells ws2 r c = cells ws r c)))"
proof -
  from initialized_sync_frame[OF assms] obtain ws' where
    first: "\<exists>ev. events w' = events w @ ev \<and> (\<forall>e\<in>set ev. refresh_event e)"
      "frozen_file w' = frozen_file w" "\<not> a1_read_fails w'"
      "sheet w' = Some ws'" "\<forall>r c. c \<noteq> 3 \<or> r < 2 \<longrightarrow> cells ws' r c = cells ws r c"
    using assms(3) by auto
  from first(5) assms(2) have marker: "cells ws' 1 1 = JStr ''ID''" by simp
  have second: "(\<exists>ev2. events w2 = events w' @ ev2 \<and> (\<forall>e\<in>set ev2. refresh_event e))
          \<and> frozen_file w2 = frozen_file w
          \<and> (\<exists>ws2. sheet w2 = Some ws2 \<and> (\<forall>r c. c \<noteq> 3 \<longrightarrow> cells ws2 r c = cells ws r c))"
    if run2: "sync_to_sheet cfg w' = (out2, w2)" for out2 w2
  proof -
    from initialized_sync_frame[OF first(4) marker first(3) run2] obtain ws2 where
      s: "\<exists>ev. events w2 = events w' @ ev \<and> (\<forall>e\<in>set ev. refresh_event e)"
        "frozen_file w2 = frozen_file w'"
        "sheet w2 = Some ws2" "\<forall>r c. c \<noteq> 3 \<or> r < 2 \<longrightarrow> cells ws2 r c = cells ws' r c"
      by auto
    from s(4) first(5) have "\<forall>r c. c \<noteq> 3 \<longrightarrow> cells ws2 r c = cells ws r c" by simp
    with s(3) have "\<exists>ws2. sheet w2 = Some ws2 \<and> (\<forall>r c. c \<noteq> 3 \<longrightarrow> cells ws2 r c = cells ws r c)"
      by blast
    with s(1,2) first(2) show ?thesis by simp
  qed
  from first(5) have "\<forall>r c. c \<noteq> 3 \<longrightarrow> cells ws' r c = cells ws r c" by simp
  with first(4) have "\<exists>ws'. sheet w' = Some ws' \<and> (\<forall>r c. c \<noteq> 3 \<longrightarrow> cells ws' r c = cells ws r c)"
    by blast
  with first(1,2) second show ?thesis by blast
qed

theorem initialized_sync_only_refreshes_witness:
  "sheet cacheless_world = Some one_row_sheet
   \<and> cells one_row_sheet 1 1 = JStr ''ID''
   \<and> \<not> a1_read_fails cacheless_world
   \<and> sync_to_sheet source_config cacheless_world =
       (Returned (),
        cacheless_world\<lparr>upstream := [],
          sheet := Some (update (A1_range 3 2 3 2) [[JStr []]] one_row_sheet),
          events := [Get_ids ''ethereum'', Sleep 10, Update (A1_range 3 2 3 2) [[JStr []]]]\<rparr>)
   \<and> (\<exists>ws'. Some (update (A1_range 3 2 3 2) [[JStr []]] one_row_sheet) = Some ws'
         \<and> cells ws' 2 1 = JStr ''ethereum'' \<and> cells ws' 2 2 = JStr ''ETH''
         \<and> cells ws' 1 1 = JStr ''ID'')"
proof -
  have h1: "sheet cacheless_world = Some one_row_sheet" by (simp add: cacheless_world_def)
  have h2: "cells one_row_sheet 1 1 = JStr ''ID''" by (simp add: one_row_sheet_def)
  have h3: "\<not> a1_read_fails cacheless_world" by (simp add: cacheless_world_def)
  from initialized_sync_only_refreshes[OF h1 h2 h3 sync_cacheless] obtain ws' where
    "Some (update (A1_range 3 2 3 2) [[JStr []]] one_row_sheet) = Some ws'"
    "\<forall>r c. c \<noteq> 3 \<longrightarrow> cells ws' r c = cells one_row_sheet r c"
    by auto
  then have "\<exists>ws'. Some (update (A1_range 3 2 3 2) [[JStr []]] one_row_sheet) = Some ws'
         \<and> cells ws' 2 1 = JStr ''ethereum'' \<and> cells ws' 2 2 = JStr ''ETH''
         \<and> cells ws' 1 1 = JStr ''ID''"
    by (simp add: one_row_sheet_def)
  with h1 h2 h3 sync_cacheless show ?thesis by (intro conjI)
qed

subsection \<open>C3: an empty first collection writes nothing\<close>



subsection \<open>C5: a refresh writes the price column only\<close>

text \<open>
  The number of identifiers that a refresh finds can be smaller than \<^verbatim>\<open>TOTAL_COINS\<close>
  through the program's own runs. In the source's configuration, a first load whose second
  page meets HTTP 500 writes 250 rows and caches 250 identifiers; the next run finds the
  marker, rejects the cache (fewer than 2000 identifiers), reads 250 identifiers from column
  A and writes C2:C251.
\<close>

lemma col_values_prefix:
  assumes "k \<le> nrows ws"
    and "\<forall>r. k < r \<and> r \<le> nrows ws \<longrightarrow> blank (cells ws r col)"
    and "0 < k \<longrightarrow> \<not> blank (cells ws k col)"
  shows "col_values ws col =
     map (\<lambda>v. if blank v then JStr [] else v) (map (\<lambda>r. cells ws r col) [1 ..< k + 1])"
proof -
  let ?f = "\<lambda>r. cells ws r col"
  obtain d where d: "nrows ws = k + d" using assms(1) by (auto simp: le_iff_add)
  have split: "[1 ..< nrows ws + 1] = [1 ..< k + 1] @ [k + 1 ..< k + 1 + d]"
    using upt_add_eq_append[of 1 "k + 1" d] by (simp add: d add.commute add.left_commute)
  have tail: "\<forall>x\<in>set (rev (map ?f [k + 1 ..< k + 1 + d])). blank x"
    using assms(2) by (auto simp: d)
  have head: "dropWhile blank (rev (map ?f [1 ..< k + 1])) = rev (map ?f [1 ..< k + 1])"
  proof (cases k)
    case 0
    then show ?thesis by simp
  next
    case (Suc j)
    then have "[1 ..< k + 1] = [1 ..< k] @ [k]" by simp
    with assms(3) Suc show ?thesis by simp
  qed
  have tail': "\<And>x. x \<in> set (rev (map ?f [k + 1 ..< k + 1 + d])) \<Longrightarrow> blank x"
    using tail by blast
  have "dropWhile blank (rev (map ?f [1 ..< nrows ws + 1])) =
      dropWhile blank (rev (map ?f [k + 1 ..< k + 1 + d]) @ rev (map ?f [1 ..< k + 1]))"
    by (simp only: split map_append rev_append)
  also have "\<dots> = dropWhile blank (rev (map ?f [1 ..< k + 1]))"
    by (rule dropWhile_append2) (rule tail')
  also have "\<dots> = rev (map ?f [1 ..< k + 1])" by (rule head)
  finally have "dropWhile blank (rev (map ?f [1 ..< nrows ws + 1])) = rev (map ?f [1 ..< k + 1])" .
  then show ?thesis by (simp only: col_values_def rev_rev_ident)
qed


lemma nrows_update: "nrows (update (A1_range c1 r1 c2 r2) values ws) = max (nrows ws) r2"
  by (simp add: update.simps)

lemma short_table_column:
  "map (\<lambda>r. cells (update (A1_range 1 1 3 251) (table_values (replicate 250 btc_item))
                     (new_worksheet source_config)) r 1) [1 ..< 251 + 1]
   = JStr ''ID'' # replicate 250 (JStr ''bitcoin'')"
proof (rule nth_equalityI)
  show "length (map (\<lambda>r. cells (update (A1_range 1 1 3 251) (table_values (replicate 250 btc_item))
                     (new_worksheet source_config)) r 1) [1 ..< 251 + 1])
      = length (JStr ''ID'' # replicate 250 (JStr ''bitcoin''))"
    by simp
next
  fix i
  assume "i < length (map (\<lambda>r. cells (update (A1_range 1 1 3 251) (table_values (replicate 250 btc_item))
                     (new_worksheet source_config)) r 1) [1 ..< 251 + 1])"
  then have i: "i < 251" by simp
  then have "[1 ..< 251 + 1] ! i = 1 + i" by simp
  with i have "map (\<lambda>r. cells (update (A1_range 1 1 3 251) (table_values (replicate 250 btc_item))
                     (new_worksheet source_config)) r 1) [1 ..< 251 + 1] ! i
      = cells (update (A1_range 1 1 3 251) (table_values (replicate 250 btc_item))
                     (new_worksheet source_config)) (1 + i) 1"
    by simp
  also have "\<dots> = (JStr ''ID'' # replicate 250 (JStr ''bitcoin'')) ! i"
    using i by (cases i) (simp_all add: cells_update table_values_def btc_item_def)
  finally show "map (\<lambda>r. cells (update (A1_range 1 1 3 251) (table_values (replicate 250 btc_item))
                     (new_worksheet source_config)) r 1) [1 ..< 251 + 1] ! i
      = (JStr ''ID'' # replicate 250 (JStr ''bitcoin'')) ! i" .
qed

lemma short_table_col_values:
  "col_values (update (A1_range 1 1 3 251) (table_values (replicate 250 btc_item))
                 (new_worksheet source_config)) 1
   = JStr ''ID'' # replicate 250 (JStr ''bitcoin'')"
proof -
  let ?ws = "update (A1_range 1 1 3 251) (table_values (replicate 250 btc_item))
                 (new_worksheet source_config)"
  have 1: "251 \<le> nrows ?ws" by (simp add: nrows_update new_worksheet_def source_config_def)
  have 2: "\<forall>r. 251 < r \<and> r \<le> nrows ?ws \<longrightarrow> blank (cells ?ws r 1)"
    by (simp add: cells_update new_worksheet_def)
  have 3: "0 < (251::nat) \<longrightarrow> \<not> blank (cells ?ws 251 1)"
    by (simp add: cells_update table_values_def btc_item_def)
  show ?thesis
    unfolding col_values_prefix[OF 1 2 3] short_table_column by simp
qed


lemma fetch_short_load:
  "fetch_top_coins_with_price source_config
     [Reply 200 (Some (JList (replicate 250 btc))), Reply 500 None, Reply 200 (Some (JList [btc]))]
   = (Fatal_abort (replicate 250 btc_item), [Reply 200 (Some (JList [btc]))],
      [Get_page 1, Sleep 20, Get_page 2])"
  by (simp add: fetch_top_coins_with_price_def PAGES_def source_config_def upt_conv_Cons
      http_error_def append_coins_replicate[OF coin_item_btc])

lemma truncated_load_then_refresh:
  "\<exists>w1 w2 q.
      sync_to_sheet source_config short_load_world = (Returned (), w1)
    \<and> events w1 = [Get_page 1, Sleep 20, Get_page 2,
         Update (A1_range 1 1 3 251) (table_values (replicate 250 btc_item)),
         Save (replicate 250 (JStr ''bitcoin''))]
    \<and> frozen_file w1 = Content (JList (replicate 250 (JStr ''bitcoin'')))
    \<and> sync_to_sheet source_config w1 = (Returned (), w2)
    \<and> events w2 = events w1 @
         [Get_ids q, Sleep 10, Update (A1_range 3 2 3 251) (replicate 250 [JNum 50000])]"
proof -
  let ?ws1 = "update (A1_range 1 1 3 251) (table_values (replicate 250 btc_item))
                 (new_worksheet source_config)"
  let ?ids = "replicate 250 (JStr ''bitcoin'')"
  let ?w1 = "short_load_world\<lparr>upstream := [Reply 200 (Some (JList [btc]))],
      sheet := Some ?ws1, frozen_file := Content (JList ?ids),
      events := [Get_page 1, Sleep 20, Get_page 2,
         Update (A1_range 1 1 3 251) (table_values (replicate 250 btc_item)), Save ?ids]\<rparr>"
  have header: "read_header (ensure_worksheet source_config (sheet short_load_world)) short_load_world
      \<noteq> JStr ''ID''"
    by (simp add: read_header_def ensure_worksheet_def short_load_world_def new_worksheet_def)
  have up: "fetch_top_coins_with_price source_config
      (upstream (short_load_world\<lparr>sheet := Some (ensure_worksheet source_config (sheet short_load_world))\<rparr>))
    = (Fatal_abort (replicate 250 btc_item), [Reply 200 (Some (JList [btc]))],
       [Get_page 1, Sleep 20, Get_page 2])"
    using fetch_short_load by (simp add: short_load_world_def)
  have ne: "replicate 250 btc_item \<noteq> []" by simp
  have run1: "sync_to_sheet source_config short_load_world = (Returned (), ?w1)"
    unfolding sync_uninitialized[OF header] first_load_coins[OF up returned.simps(2) ne]
    by (simp add: short_load_world_def ensure_worksheet_def btc_item_def)
  have init: "sheet ?w1 = Some ?ws1" "cells ?ws1 1 1 = JStr ''ID''" "\<not> a1_read_fails ?w1"
    by (simp_all add: short_load_world_def cells_update table_values_def)
  have ids: "known_ids source_config ?ws1 (frozen_file ?w1) = ?ids"
  proof -
    have "load_frozen_coins source_config (frozen_file ?w1) = None"
      by (simp add: source_config_def)
    moreover have "take (TOTAL_COINS source_config) (drop 1 (col_values ?ws1 1)) = ?ids"
      unfolding short_table_col_values by (simp add: source_config_def)
    ultimately show ?thesis by (simp only: known_ids_def option.case)
  qed
  have b: "batches 250 ?ids = [?ids]" by (simp add: batches.simps)
  obtain q where q: "str_join ?ids = Inr q" using str_join_strings[of ?ids] by auto
  have rows: "chunk_rows [JStr ''bitcoin'' \<mapsto> JNum 50000] ?ids = replicate 250 [JNum 50000]"
    by (simp add: chunk_rows_def price_get_def)
  have run: "collect_prices source_config ?ids [Reply 200 (Some (JList [btc]))] =
      (Returned (replicate 250 [JNum 50000]), [], [Get_ids q, Sleep 10])"
    by (simp add: collect_prices_def source_config_def b q http_error_def btc_def rows)
  let ?w2 = "?w1\<lparr>upstream := [],
         sheet := Some (update (A1_range 3 2 3 251) (replicate 250 [JNum 50000]) ?ws1),
         events := events ?w1 @ [Get_ids q, Sleep 10] @
           [Update (A1_range 3 2 3 251) (replicate 250 [JNum 50000])]\<rparr>"
  have run2: "sync_to_sheet source_config ?w1 = (Returned (), ?w2)"
    unfolding sync_initialized[OF init] ids
    by (simp add: update_prices_only_def run Let_def)
  have ev1: "events ?w1 = [Get_page 1, Sleep 20, Get_page 2,
         Update (A1_range 1 1 3 251) (table_values (replicate 250 btc_item)),
         Save (replicate 250 (JStr ''bitcoin''))]"
    by simp
  have ff: "frozen_file ?w1 = Content (JList (replicate 250 (JStr ''bitcoin'')))" by simp
  have ev2: "events ?w2 = events ?w1 @
         [Get_ids q, Sleep 10, Update (A1_range 3 2 3 251) (replicate 250 [JNum 50000])]"
    by simp
  from run1 ev1 ff run2 ev2 show ?thesis by blast
qed

text \<open>
  C5 as stated is refuted: the range that a refresh writes ends at the row after the
  number of identifiers refreshed, not at \<^verbatim>\<open>TOTAL_COINS + 1\<close>. With the source's
  configuration, a worksheet holding the header and one identifier, and no cache file,
  the identifiers are read from column A and the write goes to C2:C2, not C2:C2001.
\<close>

theorem refresh_range_follows_ids:
  "sync_to_sheet source_config cacheless_world =
     (Returned (),
      cacheless_world\<lparr>upstream := [],
        sheet := Some (update (A1_range 3 2 3 2) [[JStr []]] one_row_sheet),
        events := [Get_ids ''ethereum'', Sleep 10, Update (A1_range 3 2 3 2) [[JStr []]]]\<rparr>)
   \<and> A1_range 3 2 3 2 \<noteq> A1_range 3 2 3 (TOTAL_COINS source_config + 1)"
  by (rule conjI[OF sync_cacheless]) (simp add: source_config_def)

text \<open>
  C5, amended: a refresh run that completes (store initialized, A1 read) performs exactly
  one write, to the range C2:C\<open>n + 1\<close>, where \<open>n\<close> is the number of identifiers
  refreshed: \<open>n\<close> is at most \<^verbatim>\<open>TOTAL_COINS\<close>, and it is \<^verbatim>\<open>TOTAL_COINS\<close>
  whenever the cache file holds a universe. The write has one price per identifier; after
  it, the cells C2 to C\<open>n + 1\<close> hold these prices in order and every other cell, so
  the header row and the columns A and B, holds what it held before: row \<open>k\<close> still
  carries the identifier it carried.
\<close>

theorem refresh_writes_price_column:
  assumes "0 < PER_PAGE cfg"
    and "sheet w = Some ws" and "cells ws 1 1 = JStr ''ID''" and "\<not> a1_read_fails w"
    and "n = length (known_ids cfg ws (frozen_file w))"
    and "sync_to_sheet cfg w = (Returned (), w')"
  shows "\<exists>prices ev.
      events w' = events w @ ev @ [Update (A1_range 3 2 3 (n + 1)) prices]
    \<and> (\<forall>e\<in>set ev. batch_event e)
    \<and> length prices = n \<and> n \<le> TOTAL_COINS cfg
    \<and> (\<forall>ids. load_frozen_coins cfg (frozen_file w) = Some ids \<longrightarrow> n = TOTAL_COINS cfg)
    \<and> (\<exists>ws'. sheet w' = Some ws' \<and>
          (\<forall>r c. cells ws' r c =
             (if c = 3 \<and> 2 \<le> r \<and> r \<le> n + 1 then prices ! (r - 2) ! 0 else cells ws r c)))"
proof -
  let ?ids = "known_ids cfg ws (frozen_file w)"
  let ?rng = "A1_range 3 2 3 (n + 1)"
  obtain res feed' ev where run: "collect_prices cfg ?ids (upstream w) = (res, feed', ev)"
    by (cases "collect_prices cfg ?ids (upstream w)") auto
  from assms(6) have upd: "update_prices_only cfg ws ?ids w = (Returned (), w')"
    by (simp add: sync_initialized[OF assms(2-4)])
  from upd run obtain prices where res: "res = Returned prices"
    by (cases res) (auto simp: update_prices_only_def)
  from upd run res assms(5) have w': "w' = w\<lparr>upstream := feed', sheet := Some (update ?rng prices ws),
        events := events w @ ev @ [Update ?rng prices]\<rparr>"
    by (simp add: update_prices_only_def Let_def)
  have len: "length prices = n"
    using collect_prices_length[OF assms(1) run[unfolded res]] assms(5) by simp
  have rows: "\<forall>row\<in>set prices. length row = 1"
    using collect_prices_rows[OF run[unfolded res]] .
  have cells: "cells (update ?rng prices ws) r c =
      (if c = 3 \<and> 2 \<le> r \<and> r \<le> n + 1 then prices ! (r - 2) ! 0 else cells ws r c)" for r c
  proof (cases "c = 3 \<and> 2 \<le> r \<and> r \<le> n + 1")
    case True
    then have "r - 2 < length prices" using len by auto
    moreover from this rows have "length (prices ! (r - 2)) = 1" by simp
    ultimately show ?thesis using True by (simp add: cells_update)
  next
    case False
    then show ?thesis by (auto simp: cells_update)
  qed
  have 1: "events w' = events w @ ev @ [Update ?rng prices]" by (simp add: w')
  have 2: "\<forall>e\<in>set ev. batch_event e" using collect_prices_events[OF run] .
  have 3: "n \<le> TOTAL_COINS cfg" using length_known_ids assms(5) by simp
  have 4: "\<forall>ids. load_frozen_coins cfg (frozen_file w) = Some ids \<longrightarrow> n = TOTAL_COINS cfg"
    using length_known_ids_cached assms(5) by simp
  have 5: "\<exists>ws'. sheet w' = Some ws' \<and>
          (\<forall>r c. cells ws' r c =
             (if c = 3 \<and> 2 \<le> r \<and> r \<le> n + 1 then prices ! (r - 2) ! 0 else cells ws r c))"
    using cells by (intro exI[of _ "update ?rng prices ws"]) (simp add: w')
  from 1 2 len 3 4 5 show ?thesis by blast
qed

theorem refresh_writes_price_column_witness:
  "0 < PER_PAGE source_config
   \<and> 1 = length (known_ids source_config one_row_sheet (frozen_file cacheless_world))
   \<and> (\<exists>prices ev.
        events (cacheless_world\<lparr>upstream := [],
          sheet := Some (update (A1_range 3 2 3 2) [[JStr []]] one_row_sheet),
          events := [Get_ids ''ethereum'', Sleep 10, Update (A1_range 3 2 3 2) [[JStr []]]]\<rparr>)
        = events cacheless_world @ ev @ [Update (A1_range 3 2 3 (1 + 1)) prices]
        \<and> length prices = 1)"
proof -
  have h0: "0 < PER_PAGE source_config" by (simp add: source_config_def)
  have h1: "sheet cacheless_world = Some one_row_sheet" by (simp add: cacheless_world_def)
  have h2: "cells one_row_sheet 1 1 = JStr ''ID''" by (simp add: one_row_sheet_def)
  have h3: "\<not> a1_read_fails cacheless_world" by (simp add: cacheless_world_def)
  have h4: "1 = length (known_ids source_config one_row_sheet (frozen_file cacheless_world))"
    by (simp add: cacheless_world_def known_ids_cacheless)
  from refresh_writes_price_column[OF h0 h1 h2 h3 h4 sync_cacheless] h0 h4
  show ?thesis by blast
qed

subsection \<open>C10: an unreadable header cell\<close>




end
